theory Spec2Isabelle
  imports Main "HOL-Library.Sublist"
begin

section \<open>Configuration (fetch_solodit.py, lines 14-37)\<close>

definition PAGE_SIZE :: nat where
  "PAGE_SIZE = 100"

definition REQUEST_DELAY :: nat where
  "REQUEST_DELAY = 3"

definition MAX_RETRIES :: nat where
  "MAX_RETRIES = 3"

definition RETRY_DELAY :: nat where
  "RETRY_DELAY = 5"

text \<open>The two spreadsheet paths; the state file is a field of its own in the world below.\<close>

datatype path = HIGH_MEDIUM_FILE | LOW_GAS_FILE

datatype impact = HIGH | MEDIUM | LOW | GAS

datatype cell = Num int | Str string

type_synonym row = "cell list"

text \<open>A workbook is its active sheet: the rows from top to bottom.\<close>

type_synonym workbook = "row list"

definition HEADERS :: row where
  "HEADERS = map Str
     [''id'', ''slug'', ''title'', ''impact'',
      ''quality_score'', ''general_score'',
      ''firm_name'', ''protocol_name'',
      ''content'', ''summary'',
      ''tags'', ''finders'', ''finders_count'',
      ''source_link'', ''github_link'', ''pdf_link'',
      ''contest_link'', ''contest_prize_txt'',
      ''report_date'']"

section \<open>Errors\<close>

text \<open>
  \<open>RequestException\<close> is what \<open>requests\<close> raises (transport failure, an HTTP error
  status through \<open>raise_for_status\<close>); \<open>SystemExit\<close> is \<open>sys.exit(1)\<close> of
  \<open>get_api_key\<close>. Neither is caught outside \<open>fetch_page\<close>.
\<close>

datatype error = RequestException | SystemExit

section \<open>Findings and rows\<close>

text \<open>
  A finding is a JSON object. Only its \<open>id\<close> takes part in control flow; the key may be
  absent (\<open>finding.get("id", 0)\<close>). The other eighteen columns of \<open>finding_to_row\<close>
  are kept as the strings that function computes from the object.
\<close>

record finding =
  fid :: "int option"
  columns :: "string list"

text \<open>\<open>int(finding.get("id", 0))\<close> (line 239).\<close>

definition finding_id :: "finding \<Rightarrow> int" where
  "finding_id f = (case fid f of None \<Rightarrow> 0 | Some i \<Rightarrow> i)"

text \<open>\<open>finding_to_row\<close> (lines 82-104): the first column is \<open>finding.get("id", "")\<close>.\<close>

definition finding_to_row :: "finding \<Rightarrow> row" where
  "finding_to_row f =
     (case fid f of None \<Rightarrow> Str [] | Some i \<Rightarrow> Num i) # map Str (columns f)"

section \<open>The network and the trace of what the client does\<close>

text \<open>The decoded body of a successful response; every key may be missing.\<close>

record page_data =
  findings :: "finding list"
  total_results :: "int option"
  total_pages :: "int option"
  remaining :: "int option"

text \<open>
  What one \<open>requests.post\<close> call can do: answer with status 429, raise a
  \<open>RequestException\<close> (also from \<open>raise_for_status\<close> or from decoding the body), or
  deliver a body.
\<close>

datatype http_result = Too_many_requests | Request_failed | Ok page_data

text \<open>
  The remote side is a function of how many requests were sent before, of the impact
  filter and of the page asked for.
\<close>

type_synonym network = "nat \<Rightarrow> impact list \<Rightarrow> nat \<Rightarrow> http_result"

datatype event =
    Request "impact list" nat
  | Rate_limit_wait
  | Retry_wait nat
  | Low_quota_wait
  | Request_delay nat

record net_state =
  requests :: nat
  events :: "event list"

definition post :: "impact list \<Rightarrow> nat \<Rightarrow> net_state \<Rightarrow> net_state" where
  "post impact_filter page n =
     n\<lparr>requests := Suc (requests n), events := events n @ [Request impact_filter page]\<rparr>"

definition sleep :: "event \<Rightarrow> net_state \<Rightarrow> net_state" where
  "sleep e n = n\<lparr>events := events n @ [e]\<rparr>"

section \<open>fetch_page (lines 107-157)\<close>

text \<open>
  The loop \<open>for attempt in range(MAX_RETRIES)\<close>, entered at \<open>attempt\<close>. Status 429 sleeps
  and \<open>continue\<close>s, which moves the \<open>for\<close> loop to the next attempt. A
  \<open>RequestException\<close> sleeps \<open>RETRY_DELAY * 2 ** attempt\<close> and goes on while
  \<open>attempt < MAX_RETRIES - 1\<close>, and is re-raised otherwise. Leaving the loop returns
  \<open>None\<close> (line 157). After a body was received with \<open>rateLimit.remaining\<close> (20 when
  missing) below 2, the client sleeps before it returns the body. Exceptions other than
  \<open>RequestException\<close> (a reset header that is not a number) are not modelled.
\<close>

function fetch_attempts ::
  "network \<Rightarrow> nat \<Rightarrow> impact list \<Rightarrow> nat \<Rightarrow> net_state \<Rightarrow> (error + page_data option) \<times> net_state"
where
  "fetch_attempts nw page impact_filter attempt n =
     (if attempt < MAX_RETRIES then
        (case nw (requests n) impact_filter page of
           Too_many_requests \<Rightarrow>
             fetch_attempts nw page impact_filter (Suc attempt)
               (sleep Rate_limit_wait (post impact_filter page n))
         | Ok data \<Rightarrow>
             (Inr (Some data),
              if (case remaining data of None \<Rightarrow> 20 | Some r \<Rightarrow> r) < 2
              then sleep Low_quota_wait (post impact_filter page n)
              else post impact_filter page n)
         | Request_failed \<Rightarrow>
             (if attempt < MAX_RETRIES - 1 then
                fetch_attempts nw page impact_filter (Suc attempt)
                  (sleep (Retry_wait (RETRY_DELAY * 2 ^ attempt)) (post impact_filter page n))
              else (Inl RequestException, post impact_filter page n)))
      else (Inr None, n))"
  by pat_completeness auto
termination
  by (relation "measure (\<lambda>(nw, page, impact_filter, attempt, n). MAX_RETRIES - attempt)") auto

definition fetch_page ::
  "network \<Rightarrow> nat \<Rightarrow> impact list \<Rightarrow> net_state \<Rightarrow> (error + page_data option) \<times> net_state"
where
  "fetch_page nw page impact_filter n = fetch_attempts nw page impact_filter 0 n"

section \<open>Workbooks (lines 160-172)\<close>

definition create_workbook_with_headers :: workbook where
  "create_workbook_with_headers = [HEADERS]"

definition load_or_create_workbook :: "workbook option \<Rightarrow> workbook" where
  "load_or_create_workbook file =
     (case file of Some wb \<Rightarrow> wb | None \<Rightarrow> create_workbook_with_headers)"

section \<open>The watermark state (lines 49-67)\<close>

text \<open>
  \<open>state.json\<close>. The two watermarks are stored as decimal strings and read back with
  \<open>int\<close>; the record holds the integers. \<open>last_run\<close> is the clock reading of the save.
\<close>

record state =
  high_medium_max_id :: int
  low_gas_max_id :: int
  last_run :: "nat option"
  high_medium_count :: nat
  low_gas_count :: nat

datatype max_id_key = High_medium_max_id | Low_gas_max_id

definition get_max_id :: "max_id_key \<Rightarrow> state \<Rightarrow> int" where
  "get_max_id key st =
     (case key of High_medium_max_id \<Rightarrow> high_medium_max_id st
                | Low_gas_max_id \<Rightarrow> low_gas_max_id st)"

definition set_max_id :: "max_id_key \<Rightarrow> int \<Rightarrow> state \<Rightarrow> state" where
  "set_max_id key v st =
     (case key of High_medium_max_id \<Rightarrow> st\<lparr>high_medium_max_id := v\<rparr>
                | Low_gas_max_id \<Rightarrow> st\<lparr>low_gas_max_id := v\<rparr>)"

text \<open>Lines 276-277: the count key is chosen by \<open>"HIGH" in impact_filter\<close>.\<close>

definition add_count :: "impact list \<Rightarrow> nat \<Rightarrow> state \<Rightarrow> state" where
  "add_count impact_filter k st =
     (if HIGH \<in> set impact_filter
      then st\<lparr>high_medium_count := high_medium_count st + k\<rparr>
      else st\<lparr>low_gas_count := low_gas_count st + k\<rparr>)"

definition default_state :: state where
  "default_state =
     \<lparr>high_medium_max_id = 0, low_gas_max_id = 0, last_run = None,
      high_medium_count = 0, low_gas_count = 0\<rparr>"

section \<open>The world of one run\<close>

record world =
  net :: net_state
  xlsx :: "path \<Rightarrow> workbook option"
  state_json :: "state option"

definition load_state :: "world \<Rightarrow> state" where
  "load_state w = (case state_json w of Some st \<Rightarrow> st | None \<Rightarrow> default_state)"

definition save_state :: "nat \<Rightarrow> state \<Rightarrow> world \<Rightarrow> world" where
  "save_state now st w = w\<lparr>state_json := Some (st\<lparr>last_run := Some now\<rparr>)\<rparr>"

section \<open>fetch_category (lines 190-279)\<close>

text \<open>The locals of the page loop (lines 211-215).\<close>

record session =
  page :: nat
  new_findings :: "finding list"
  new_max_id :: int
  total_fetched :: nat
  should_stop :: bool

definition init_session :: "int \<Rightarrow> session" where
  "init_session current_max_id =
     \<lparr>page = 1, new_findings = [], new_max_id = current_max_id,
      total_fetched = 0, should_stop = False\<rparr>"

text \<open>The loop over one page's findings (lines 238-252); \<open>break\<close> ends the recursion.\<close>

fun scan_findings :: "bool \<Rightarrow> int \<Rightarrow> finding list \<Rightarrow> session \<Rightarrow> session" where
  "scan_findings is_initial_fetch current_max_id [] s = s"
| "scan_findings is_initial_fetch current_max_id (f # fs) s =
     (let s1 = (if finding_id f > new_max_id s then s\<lparr>new_max_id := finding_id f\<rparr> else s)
      in if \<not> is_initial_fetch \<and> finding_id f \<le> current_max_id
         then s1\<lparr>should_stop := True\<rparr>
         else scan_findings is_initial_fetch current_max_id fs
                (s1\<lparr>new_findings := new_findings s1 @ [f],
                    total_fetched := Suc (total_fetched s1)\<rparr>))"

text \<open>
  The loop \<open>while not should_stop\<close> (lines 217-259). It need not end (a remote that
  announces ever more pages keeps it going), so its result is optional: \<open>None\<close> is a run
  that never leaves the loop. An exception of \<open>fetch_page\<close> leaves the function at once.
  A body that is an empty object is falsy on line 221; as a record it has no findings, and
  line 235 leaves the loop in the same state.
\<close>

partial_function (option) sync_loop ::
  "network \<Rightarrow> impact list \<Rightarrow> bool \<Rightarrow> int \<Rightarrow> session \<Rightarrow> net_state
     \<Rightarrow> ((error + session) \<times> net_state) option"
where
  "sync_loop nw impact_filter is_initial_fetch current_max_id s n =
     (if should_stop s then Some (Inr s, n)
      else
        (case fetch_page nw (page s) impact_filter n of
           (Inl e, n1) \<Rightarrow> Some (Inl e, n1)
         | (Inr None, n1) \<Rightarrow> Some (Inr s, n1)
         | (Inr (Some data), n1) \<Rightarrow>
             (if findings data = [] then Some (Inr s, n1)
              else
                (let s1 = scan_findings is_initial_fetch current_max_id (findings data) s
                 in if int (page s1) \<ge> (case total_pages data of None \<Rightarrow> 0 | Some t \<Rightarrow> t)
                    then Some (Inr s1, n1)
                    else sync_loop nw impact_filter is_initial_fetch current_max_id
                           (s1\<lparr>page := Suc (page s1)\<rparr>)
                           (sleep (Request_delay REQUEST_DELAY) n1)))))"

text \<open>
  The whole function. The workbook is chosen before the loop (lines 200-207), the rows are
  appended oldest first and the file is saved only when there are new findings
  (lines 262-270), then the state is updated in place (lines 275-277).
\<close>

definition fetch_category ::
  "network \<Rightarrow> impact list \<Rightarrow> path \<Rightarrow> max_id_key \<Rightarrow> state \<Rightarrow> world
     \<Rightarrow> ((error + nat \<times> state) \<times> world) option"
where
  "fetch_category nw impact_filter xlsx_file key st w =
     (let current_max_id = get_max_id key st;
          is_initial_fetch = (current_max_id = 0);
          wb = (if is_initial_fetch then create_workbook_with_headers
                else load_or_create_workbook (xlsx w xlsx_file))
      in case sync_loop nw impact_filter is_initial_fetch current_max_id
                (init_session current_max_id) (net w) of
           None \<Rightarrow> None
         | Some (Inl e, n1) \<Rightarrow> Some (Inl e, w\<lparr>net := n1\<rparr>)
         | Some (Inr s, n1) \<Rightarrow>
             Some (Inr (length (new_findings s),
                        add_count impact_filter (length (new_findings s))
                          (set_max_id key (new_max_id s) st)),
                   if new_findings s \<noteq> []
                   then w\<lparr>net := n1,
                          xlsx := (xlsx w)(xlsx_file \<mapsto>
                                    wb @ map finding_to_row (rev (new_findings s)))\<rparr>
                   else w\<lparr>net := n1\<rparr>))"

section \<open>main (lines 282-325)\<close>

definition get_api_key :: "string option \<Rightarrow> error + string" where
  "get_api_key env =
     (case env of None \<Rightarrow> Inl SystemExit
                | Some k \<Rightarrow> if k = [] then Inl SystemExit else Inr k)"

definition main :: "network \<Rightarrow> string option \<Rightarrow> nat \<Rightarrow> world \<Rightarrow> ((error + nat) \<times> world) option" where
  "main nw env now w =
     (case get_api_key env of
        Inl e \<Rightarrow> Some (Inl e, w)
      | Inr api_key \<Rightarrow>
          (case fetch_category nw [HIGH, MEDIUM] HIGH_MEDIUM_FILE High_medium_max_id
                  (load_state w) w of
             None \<Rightarrow> None
           | Some (Inl e, w1) \<Rightarrow> Some (Inl e, w1)
           | Some (Inr (n1, st1), w1) \<Rightarrow>
               (case fetch_category nw [LOW, GAS] LOW_GAS_FILE Low_gas_max_id st1 w1 of
                  None \<Rightarrow> None
                | Some (Inl e, w2) \<Rightarrow> Some (Inl e, w2)
                | Some (Inr (n2, st2), w2) \<Rightarrow>
                    Some (Inr (n1 + n2), save_state now st2 w2))))"

section \<open>Vocabulary of the properties\<close>

text \<open>
  The records of a listing that a sync with watermark \<open>current_max_id\<close> is to take: all
  of them on an initial fetch, otherwise those delivered before the first record whose id
  is not above the watermark.
\<close>

definition fresh :: "bool \<Rightarrow> int \<Rightarrow> finding list \<Rightarrow> finding list" where
  "fresh is_initial_fetch current_max_id fs =
     (if is_initial_fetch then fs else takeWhile (\<lambda>f. current_max_id < finding_id f) fs)"

text \<open>
  The id column of a row read back the way line 239 reads a finding's id (a missing id
  counts as 0), so that \<open>row_id (finding_to_row f) = finding_id f\<close>; the ids of a store
  are those of the rows below the header row.
\<close>

definition row_id :: "row \<Rightarrow> int" where
  "row_id r = (case r of Num i # cs \<Rightarrow> i | _ \<Rightarrow> 0)"

definition store_ids :: "workbook \<Rightarrow> int list" where
  "store_ids wb = map row_id (drop 1 wb)"

definition stored_ids :: "world \<Rightarrow> path \<Rightarrow> int list" where
  "stored_ids w xlsx_file = (case xlsx w xlsx_file of None \<Rightarrow> [] | Some wb \<Rightarrow> store_ids wb)"

text \<open>
  A store agrees with a watermark when it has its header row, its ids increase strictly
  from top to bottom and none of them is above the watermark.
\<close>

definition store_ok :: "int \<Rightarrow> workbook \<Rightarrow> bool" where
  "store_ok max_id wb \<longleftrightarrow>
     wb \<noteq> [] \<and> sorted_wrt (<) (store_ids wb) \<and> list_all (\<lambda>i. i \<le> max_id) (store_ids wb)"

section \<open>The simulated remote of the test scenarios\<close>

text \<open>
  A remote that holds the listing \<open>fs\<close> (newest first), never fails and never limits the
  rate: page \<open>p\<close> is the \<open>p\<close>-th slice of \<open>PAGE_SIZE\<close> records, and the metadata
  announce the number of records and of pages.
\<close>

definition sim_remote :: "finding list \<Rightarrow> network" where
  "sim_remote fs k impact_filter p =
     Ok \<lparr>findings = take PAGE_SIZE (drop ((p - 1) * PAGE_SIZE) fs),
         total_results = Some (int (length fs)),
         total_pages = Some (int ((length fs + PAGE_SIZE - 1) div PAGE_SIZE)),
         remaining = None\<rparr>"

text \<open>Test data: findings with the given ids and no other content.\<close>

definition numbered :: "int list \<Rightarrow> finding list" where
  "numbered ids = map (\<lambda>i. \<lparr>fid = Some i, columns = []\<rparr>) ids"

text \<open>A remote that answers every request with the same body.\<close>

definition constant_remote :: "page_data \<Rightarrow> network" where
  "constant_remote data k impact_filter p = Ok data"

text \<open>Bodies for such a remote: one without the page count, and the only page of a listing.\<close>

definition page_without_total :: "finding list \<Rightarrow> page_data" where
  "page_without_total fs =
     \<lparr>findings = fs, total_results = None, total_pages = None, remaining = None\<rparr>"

definition only_page :: "finding list \<Rightarrow> page_data" where
  "only_page fs =
     \<lparr>findings = fs, total_results = Some (int (length fs)), total_pages = Some 1,
      remaining = None\<rparr>"

definition first_of_two_pages :: "finding list \<Rightarrow> page_data" where
  "first_of_two_pages fs =
     \<lparr>findings = fs, total_results = Some (2 * int (length fs)), total_pages = Some 2,
      remaining = None\<rparr>"

text \<open>
  A remote that answers the successive requests of a run from a script, whatever they ask
  for, and fails every request after the script's end.
\<close>

definition scripted :: "http_result list \<Rightarrow> network" where
  "scripted rs k impact_filter p = (if k < length rs then rs ! k else Request_failed)"

definition fresh_net :: net_state where
  "fresh_net = \<lparr>requests = 0, events = []\<rparr>"

text \<open>What an answer delivers and announces, for statements about the pages of a remote.\<close>

definition delivered :: "http_result \<Rightarrow> finding list" where
  "delivered r = (case r of Ok data \<Rightarrow> findings data | _ \<Rightarrow> [])"

definition announced_pages :: "http_result \<Rightarrow> int option" where
  "announced_pages r = (case r of Ok data \<Rightarrow> total_pages data | _ \<Rightarrow> None)"

text \<open>The world before the first run, and a world in which a store is on disk.\<close>

definition empty_world :: world where
  "empty_world = \<lparr>net = fresh_net, xlsx = (\<lambda>f. None), state_json = None\<rparr>"

definition with_store :: "path \<Rightarrow> workbook \<Rightarrow> world \<Rightarrow> world" where
  "with_store xlsx_file wb w = w\<lparr>xlsx := (xlsx w)(xlsx_file \<mapsto> wb)\<rparr>"

section \<open>Basic facts about the page scan and the page loop\<close>

declare fetch_attempts.simps [simp del]

lemma scan_page [simp]: "page (scan_findings b cur fs s) = page s"
  by (induction fs arbitrary: s) (auto simp: Let_def)

lemma scan_new_findings:
  "new_findings (scan_findings b cur fs s) = new_findings s @ fresh b cur fs"
  by (induction fs arbitrary: s) (auto simp: Let_def fresh_def)

lemma scan_total_fetched:
  "total_fetched (scan_findings b cur fs s) = total_fetched s + length (fresh b cur fs)"
  by (induction fs arbitrary: s) (auto simp: Let_def fresh_def)

lemma scan_should_stop:
  "should_stop (scan_findings b cur fs s) = (should_stop s \<or> fresh b cur fs \<noteq> fs)"
  by (induction fs arbitrary: s) (auto simp: Let_def fresh_def)

lemma Max_insert_max:
  "finite S \<Longrightarrow> Max (insert (max (m::int) i) S) = Max (insert m (insert i S))"
  by (cases "S = {}") (simp_all add: max.assoc)

lemma scan_new_max_id:
  "b \<or> cur \<le> new_max_id s \<Longrightarrow>
   new_max_id (scan_findings b cur fs s) = Max (insert (new_max_id s) (finding_id ` set (fresh b cur fs)))"
proof (induction fs arbitrary: s)
  case Nil
  show ?case by (simp add: fresh_def)
next
  case (Cons f fs)
  show ?case
  proof (cases "\<not> b \<and> finding_id f \<le> cur")
    case True
    then show ?thesis using Cons.prems by (auto simp: Let_def fresh_def)
  next
    case False
    let ?s1 = "(if finding_id f > new_max_id s then s\<lparr>new_max_id := finding_id f\<rparr> else s)"
    let ?s2 = "?s1\<lparr>new_findings := new_findings ?s1 @ [f], total_fetched := Suc (total_fetched ?s1)\<rparr>"
    have m: "new_max_id ?s2 = max (new_max_id s) (finding_id f)" by auto
    have "b \<or> cur \<le> new_max_id ?s2" using Cons.prems by auto
    from Cons.IH [OF this]
    have e1: "new_max_id (scan_findings b cur fs ?s2) =
       Max (insert (max (new_max_id s) (finding_id f)) (finding_id ` set (fresh b cur fs)))"
      unfolding m .
    have e2: "scan_findings b cur (f # fs) s = scan_findings b cur fs ?s2"
      using False by (auto simp: Let_def)
    have e3: "fresh b cur (f # fs) = f # fresh b cur fs"
      using False by (auto simp: fresh_def)
    have e4: "finite (finding_id ` set (fresh b cur fs))" by simp
    show ?thesis
      by (simp only: e2 e1 e3 list.set image_insert Max_insert_max [OF e4])
  qed
qed

lemma scan_new_max_id_cong:
  "new_max_id s = new_max_id t \<Longrightarrow>
   new_max_id (scan_findings b cur fs s) = new_max_id (scan_findings b cur fs t)"
proof (induction fs arbitrary: s t)
  case Nil
  then show ?case by simp
next
  case (Cons f fs)
  let ?u = "\<lambda>s. if finding_id f > new_max_id s then s\<lparr>new_max_id := finding_id f\<rparr> else s"
  let ?v = "\<lambda>s. s\<lparr>new_findings := new_findings s @ [f], total_fetched := Suc (total_fetched s)\<rparr>"
  have "new_max_id (?v (?u s)) = new_max_id (?v (?u t))"
    using Cons.prems by simp
  from Cons.IH [OF this] show ?case
    using Cons.prems by (cases "new_max_id t < finding_id f"; cases b) (simp_all add: Let_def)
qed

lemma scan_page_update: "scan_findings b cur fs (s\<lparr>page := p\<rparr>) = (scan_findings b cur fs s)\<lparr>page := p\<rparr>"
proof (rule session.equality)
  show "new_max_id (scan_findings b cur fs (s\<lparr>page := p\<rparr>)) = new_max_id ((scan_findings b cur fs s)\<lparr>page := p\<rparr>)"
    using scan_new_max_id_cong [of "s\<lparr>page := p\<rparr>" s b cur fs] by simp
qed (simp_all add: scan_new_findings scan_total_fetched scan_should_stop)


lemma scan_append:
  "\<not> should_stop s \<Longrightarrow> scan_findings b cur (xs @ ys) s =
     (if should_stop (scan_findings b cur xs s) then scan_findings b cur xs s
      else scan_findings b cur ys (scan_findings b cur xs s))"
  by (induction xs arbitrary: s) (auto simp: Let_def)

lemma sync_loop_stop: "should_stop s \<Longrightarrow> sync_loop nw flt b cur s n = Some (Inr s, n)"
  by (subst sync_loop.simps) simp

lemma sync_loop_page:
  assumes "\<not> should_stop s" and "fetch_page nw (page s) flt n = (Inr (Some d), n1)"
  shows "sync_loop nw flt b cur s n =
     (if int (page s) \<ge> (case total_pages d of None \<Rightarrow> 0 | Some t \<Rightarrow> t) \<or> findings d = []
      then Some (Inr (scan_findings b cur (findings d) s), n1)
      else sync_loop nw flt b cur ((scan_findings b cur (findings d) s)\<lparr>page := Suc (page s)\<rparr>)
             (sleep (Request_delay REQUEST_DELAY) n1))"
  using assms by (subst sync_loop.simps) (auto simp: Let_def)

lemma fetch_page_sim:
  "fetch_page (sim_remote fs) p flt n =
     (Inr (Some \<lparr>findings = take PAGE_SIZE (drop ((p - 1) * PAGE_SIZE) fs),
         total_results = Some (int (length fs)),
         total_pages = Some (int ((length fs + PAGE_SIZE - 1) div PAGE_SIZE)),
         remaining = None\<rparr>), post flt p n)"
  by (simp add: fetch_page_def fetch_attempts.simps [of _ _ _ 0] MAX_RETRIES_def sim_remote_def)

lemma sim_loop:
  assumes "\<not> should_stop s" and "1 \<le> page s" and "(page s - 1) * PAGE_SIZE < length fs"
  shows "\<exists>n1 pg. sync_loop (sim_remote fs) flt b cur s n =
           Some (Inr ((scan_findings b cur (drop ((page s - 1) * PAGE_SIZE) fs) s)\<lparr>page := pg\<rparr>), n1)"
  using assms
proof (induction "length fs - (page s - 1) * PAGE_SIZE" arbitrary: s n rule: less_induct)
  case less
  let ?k = "(page s - 1) * PAGE_SIZE"
  let ?pg = "take PAGE_SIZE (drop ?k fs)"
  let ?s1 = "scan_findings b cur ?pg s"
  have ps: "0 < PAGE_SIZE" by (simp add: PAGE_SIZE_def)
  have ne: "?pg \<noteq> []" using less.prems ps by simp
  have pk: "page s * PAGE_SIZE = PAGE_SIZE + ?k"
    using less.prems(2) by (cases "page s") simp_all
  have split: "drop ?k fs = ?pg @ drop (page s * PAGE_SIZE) fs"
  proof -
    note pk
    moreover have "drop (PAGE_SIZE + ?k) fs = drop PAGE_SIZE (drop ?k fs)"
      by simp
    ultimately show ?thesis by (simp only: append_take_drop_id)
  qed
  note unfold = sync_loop_page [OF less.prems(1) fetch_page_sim, of fs flt b cur n]
  show ?case
  proof (cases "int (page s) \<ge> int ((length fs + PAGE_SIZE - 1) div PAGE_SIZE)")
    case True
    then have "length fs \<le> page s * PAGE_SIZE"
      using ps by (simp add: PAGE_SIZE_def)
    then have "drop ?k fs = ?pg" using split by simp
    then have "sync_loop (sim_remote fs) flt b cur s n =
        Some (Inr ((scan_findings b cur (drop ?k fs) s)\<lparr>page := page s\<rparr>), post flt (page s) n)"
      using unfold True by simp
    then show ?thesis by blast
  next
    case False
    then have lt: "page s * PAGE_SIZE < length fs"
      by (simp add: PAGE_SIZE_def)
    let ?s2 = "?s1\<lparr>page := Suc (page s)\<rparr>"
    let ?n2 = "sleep (Request_delay REQUEST_DELAY) (post flt (page s) n)"
    have step: "sync_loop (sim_remote fs) flt b cur s n = sync_loop (sim_remote fs) flt b cur ?s2 ?n2"
      using unfold False ne by simp
    show ?thesis
    proof (cases "should_stop ?s1")
      case True
      then have "scan_findings b cur (drop ?k fs) s = ?s1"
        using scan_append [OF less.prems(1), of b cur ?pg "drop (page s * PAGE_SIZE) fs"] split by simp
      moreover have "sync_loop (sim_remote fs) flt b cur ?s2 ?n2 = Some (Inr ?s2, ?n2)"
        using True by (simp add: sync_loop_stop)
      ultimately show ?thesis using step by auto
    next
      case F2: False
      have "\<exists>n1 pg. sync_loop (sim_remote fs) flt b cur ?s2 ?n2 =
           Some (Inr ((scan_findings b cur (drop ((page ?s2 - 1) * PAGE_SIZE) fs) ?s2)\<lparr>page := pg\<rparr>), n1)"
        using less.prems lt F2 pk ps by (intro less.hyps) auto
      then obtain n1 pg where r: "sync_loop (sim_remote fs) flt b cur ?s2 ?n2 =
           Some (Inr ((scan_findings b cur (drop (page s * PAGE_SIZE) fs) ?s2)\<lparr>page := pg\<rparr>), n1)"
        by auto
      have "scan_findings b cur (drop ?k fs) s = scan_findings b cur (drop (page s * PAGE_SIZE) fs) ?s1"
        using scan_append [OF less.prems(1), of b cur ?pg "drop (page s * PAGE_SIZE) fs"] split F2 by simp
      then have "(scan_findings b cur (drop (page s * PAGE_SIZE) fs) ?s2)\<lparr>page := pg\<rparr>
          = (scan_findings b cur (drop ?k fs) s)\<lparr>page := pg\<rparr>"
        by (simp add: scan_page_update)
      then show ?thesis using step r by auto
    qed
  qed
qed

lemma sync_loop_raise:
  "\<not> should_stop s \<Longrightarrow> fetch_page nw (page s) flt n = (Inl e, n1) \<Longrightarrow>
   sync_loop nw flt b cur s n = Some (Inl e, n1)"
  by (subst sync_loop.simps) simp

lemma sync_loop_none:
  "\<not> should_stop s \<Longrightarrow> fetch_page nw (page s) flt n = (Inr None, n1) \<Longrightarrow>
   sync_loop nw flt b cur s n = Some (Inr s, n1)"
  by (subst sync_loop.simps) simp

lemma fresh_boundary:
  assumes "\<forall>g\<in>set front. cur < finding_id g" and "finding_id f \<le> cur"
  shows "fresh False cur (front @ f # rest) = front"
  using assms by (simp add: fresh_def takeWhile_append2)

lemma fetch_page_constant:
  "fetch_page (constant_remote d) p flt n =
     (Inr (Some d),
      if (case remaining d of None \<Rightarrow> 20 | Some r \<Rightarrow> r) < 2
      then sleep Low_quota_wait (post flt p n) else post flt p n)"
  by (simp add: fetch_page_def fetch_attempts.simps [of _ _ _ 0] MAX_RETRIES_def constant_remote_def)

section \<open>What fetch_category returns, and invariants of the page loop\<close>

lemma fetch_category_result:
  assumes "sync_loop nw flt (get_max_id key st = 0) (get_max_id key st)
             (init_session (get_max_id key st)) (net w) = Some (Inr s, n1)"
  shows "fetch_category nw flt xf key st w =
     Some (Inr (length (new_findings s),
                add_count flt (length (new_findings s)) (set_max_id key (new_max_id s) st)),
           if new_findings s \<noteq> []
           then w\<lparr>net := n1,
                  xlsx := (xlsx w)(xf \<mapsto>
                    (if get_max_id key st = 0 then create_workbook_with_headers
                     else load_or_create_workbook (xlsx w xf))
                    @ map finding_to_row (rev (new_findings s)))\<rparr>
           else w\<lparr>net := n1\<rparr>)"
  using assms by (simp add: fetch_category_def Let_def)

lemma fetch_category_returns:
  assumes "fetch_category nw flt xf key st w = Some (Inr (k, st'), w')"
  shows "\<exists>s n1. sync_loop nw flt (get_max_id key st = 0) (get_max_id key st)
             (init_session (get_max_id key st)) (net w) = Some (Inr s, n1)"
  using assms by (auto simp: fetch_category_def Let_def split: option.splits sum.splits prod.splits)

lemma sync_loop_invariant:
  assumes run: "sync_loop nw flt b cur s n = Some (Inr s', n')"
    and init: "I s"
    and scan: "\<And>fs t. I t \<Longrightarrow> I (scan_findings b cur fs t)"
    and turn: "\<And>t p. I t \<Longrightarrow> I (t\<lparr>page := p\<rparr>)"
  shows "I s'"
proof -
  have "b' = b \<longrightarrow> cur' = cur \<longrightarrow> I t \<longrightarrow> (\<forall>t' m'. y = (Inr t', m') \<longrightarrow> I t')"
    if "sync_loop nw' flt' b' cur' t m = Some y" for nw' flt' b' cur' t m y
  proof (rule sync_loop.raw_induct [where P = "\<lambda>nw' flt' b' cur' t m y.
      b' = b \<longrightarrow> cur' = cur \<longrightarrow> I t \<longrightarrow> (\<forall>t' m'. y = (Inr t', m') \<longrightarrow> I t')", OF _ that], goal_cases)
    case (1 loop nw flt b0 cur0 t m y)
    show ?case
    proof (intro impI allI)
      fix t' m'
      assume eq: "b0 = b" "cur0 = cur" and It: "I t" and y: "y = (Inr t', m')"
      show "I t'"
      proof (cases "should_stop t")
        case True
        then show ?thesis using 1(2) y It by simp
      next
        case False
        obtain r m1 where fp: "fetch_page nw (page t) flt m = (r, m1)"
          by (cases "fetch_page nw (page t) flt m")
        show ?thesis
        proof (cases r)
          case (Inl e)
          then show ?thesis using 1(2) y False fp by simp
        next
          case (Inr od)
          show ?thesis
          proof (cases od)
            case None
            then show ?thesis using 1(2) y False fp Inr It by simp
          next
            case (Some d)
            let ?t1 = "scan_findings b cur (findings d) t"
            have I1: "I ?t1" using It by (rule scan)
            show ?thesis
            proof (cases "findings d = []")
              case True
              then show ?thesis using 1(2) y False fp Inr Some It by simp
            next
              case ne: False
              show ?thesis
              proof (cases "int (page t) \<ge> (case total_pages d of None \<Rightarrow> 0 | Some x \<Rightarrow> x)")
                case True
                then show ?thesis using 1(2) y False fp Inr Some ne I1 eq by (simp add: Let_def)
              next
                case F: False
                then have "loop nw flt b cur (?t1\<lparr>page := Suc (page t)\<rparr>)
                              (sleep (Request_delay REQUEST_DELAY) m1) = Some y"
                  using 1(2) False fp Inr Some ne eq by (simp add: Let_def)
                from 1(1) [OF this] turn [OF I1] y show ?thesis by simp
              qed
            qed
          qed
        qed
      qed
    qed
  qed
  from this [OF run] init show ?thesis by simp
qed

lemma Max_insert_Max:
  assumes "finite A" and "finite B"
  shows "Max (insert (Max (insert (c::int) A)) B) = Max (insert c (A \<union> B))"
proof (cases "B = {}")
  case True
  then show ?thesis by simp
next
  case False
  have "Max (insert c A \<union> B) = max (Max (insert c A)) (Max B)"
    using assms False by (intro Max_Un) auto
  moreover have "Max (insert (Max (insert c A)) B) = max (Max (insert c A)) (Max B)"
    using assms False by simp
  ultimately show ?thesis by simp
qed

lemma sync_loop_new_max_id:
  assumes "sync_loop nw flt b cur (init_session cur) n = Some (Inr s, n1)"
  shows "new_max_id s = Max (insert cur (finding_id ` set (new_findings s)))"
proof (rule sync_loop_invariant [OF assms, where I = "\<lambda>t. new_max_id t = Max (insert cur (finding_id ` set (new_findings t)))"])
  show "new_max_id (init_session cur) = Max (insert cur (finding_id ` set (new_findings (init_session cur))))"
    by (simp add: init_session_def)
next
  fix fs and t :: session
  assume I: "new_max_id t = Max (insert cur (finding_id ` set (new_findings t)))"
  then have "cur \<le> new_max_id t" by simp
  then have "new_max_id (scan_findings b cur fs t) =
      Max (insert (new_max_id t) (finding_id ` set (fresh b cur fs)))"
    by (simp add: scan_new_max_id)
  also have "\<dots> = Max (insert cur (finding_id ` set (new_findings t) \<union> finding_id ` set (fresh b cur fs)))"
    unfolding I by (rule Max_insert_Max) simp_all
  finally show "new_max_id (scan_findings b cur fs t) =
      Max (insert cur (finding_id ` set (new_findings (scan_findings b cur fs t))))"
    by (simp add: scan_new_findings image_Un)
next
  fix t :: session and p
  assume "new_max_id t = Max (insert cur (finding_id ` set (new_findings t)))"
  then show "new_max_id (t\<lparr>page := p\<rparr>) = Max (insert cur (finding_id ` set (new_findings (t\<lparr>page := p\<rparr>))))"
    by simp
qed

lemma get_max_id_updated [simp]:
  "get_max_id key (add_count flt k (set_max_id key v st)) = v"
  by (cases key) (simp_all add: get_max_id_def add_count_def set_max_id_def)

lemma get_max_id_other [simp]:
  "key' \<noteq> key \<Longrightarrow> get_max_id key' (add_count flt k (set_max_id key v st)) = get_max_id key' st"
  by (cases key; cases key') (simp_all add: get_max_id_def add_count_def set_max_id_def)

lemma sync_only_page:
  "sync_loop (constant_remote (only_page fs)) flt b cur (init_session cur) n =
     Some (Inr (scan_findings b cur fs (init_session cur)), post flt 1 n)"
proof -
  have h1: "\<not> should_stop (init_session cur)" by (simp add: init_session_def)
  have h2: "fetch_page (constant_remote (only_page fs)) (page (init_session cur)) flt n
      = (Inr (Some (only_page fs)), post flt 1 n)"
    by (simp add: fetch_page_constant only_page_def init_session_def)
  show ?thesis
    using sync_loop_page [OF h1 h2, of b cur] by (simp add: only_page_def init_session_def)
qed

lemma fetch_category_only_page:
  assumes "cur = get_max_id key st" and "b = (cur = 0)"
  shows "fetch_category (constant_remote (only_page fs)) flt xf key st w =
     Some (Inr (length (fresh b cur fs),
                add_count flt (length (fresh b cur fs))
                  (set_max_id key (Max (insert cur (finding_id ` set (fresh b cur fs)))) st)),
           if fresh b cur fs \<noteq> []
           then w\<lparr>net := post flt 1 (net w),
                  xlsx := (xlsx w)(xf \<mapsto>
                    (if cur = 0 then create_workbook_with_headers
                     else load_or_create_workbook (xlsx w xf))
                    @ map finding_to_row (rev (fresh b cur fs)))\<rparr>
           else w\<lparr>net := post flt 1 (net w)\<rparr>)"
proof -
  let ?s = "scan_findings b cur fs (init_session cur)"
  have run: "sync_loop (constant_remote (only_page fs)) flt (get_max_id key st = 0) (get_max_id key st)
             (init_session (get_max_id key st)) (net w) = Some (Inr ?s, post flt 1 (net w))"
    unfolding assms by (rule sync_only_page)
  have nf: "new_findings ?s = fresh b cur fs"
    by (simp add: scan_new_findings init_session_def)
  have mx: "new_max_id ?s = Max (insert cur (finding_id ` set (fresh b cur fs)))"
    using sync_loop_new_max_id [OF run [folded assms]] nf by simp
  show ?thesis
    using fetch_category_result [OF run, where xf = xf] nf mx assms by simp
qed

section \<open>The trace of fetch_page\<close>





section \<open>Runs against particular remotes\<close>

lemma sync_loop_two_pages_second_fails:
  assumes p1: "fetch_page nw 1 flt n = (Inr (Some (first_of_two_pages fs)), n1)"
    and p2: "fetch_page nw 2 flt (sleep (Request_delay REQUEST_DELAY) n1) = (r, n2)"
    and ne: "fs \<noteq> []"
    and r: "r = Inl e \<or> r = Inr None"
  shows "sync_loop nw flt True 0 (init_session 0) n =
     Some (case r of Inl e \<Rightarrow> Inl e
                   | Inr x \<Rightarrow> Inr ((scan_findings True 0 fs (init_session 0))\<lparr>page := 2\<rparr>), n2)"
proof -
  let ?s1 = "scan_findings True 0 fs (init_session 0)"
  let ?s2 = "?s1\<lparr>page := 2\<rparr>"
  have s0: "\<not> should_stop (init_session 0)" and pg: "page (init_session 0) = 1"
    by (simp_all add: init_session_def)
  have e1: "sync_loop nw flt True 0 (init_session 0) n =
      sync_loop nw flt True 0 ?s2 (sleep (Request_delay REQUEST_DELAY) n1)"
    using sync_loop_page [OF s0 p1 [folded pg], of True 0] ne
    by (simp add: first_of_two_pages_def pg numeral_2_eq_2)
  have s2: "\<not> should_stop ?s2"
    by (simp add: scan_should_stop fresh_def init_session_def)
  have p2': "fetch_page nw (page ?s2) flt (sleep (Request_delay REQUEST_DELAY) n1) = (r, n2)"
    using p2 by simp
  show ?thesis
    using r sync_loop_raise [OF s2, of nw flt _ e n2 True 0]
      sync_loop_none [OF s2, of nw flt _ n2 True 0] p2' e1
    by auto
qed

lemma sim_sync:
  "\<exists>s n1. sync_loop (sim_remote fs) flt b cur (init_session cur) n = Some (Inr s, n1)
     \<and> new_findings s = fresh b cur fs"
proof (cases "fs = []")
  case True
  have s0: "\<not> should_stop (init_session cur)" by (simp add: init_session_def)
  have "sync_loop (sim_remote fs) flt b cur (init_session cur) n =
      Some (Inr (init_session cur), post flt (page (init_session cur)) n)"
    using sync_loop_page [OF s0 fetch_page_sim, of fs flt b cur n] True by simp
  then show ?thesis using True by (simp add: init_session_def fresh_def)
next
  case False
  have "\<exists>n1 pg. sync_loop (sim_remote fs) flt b cur (init_session cur) n =
           Some (Inr ((scan_findings b cur (drop ((page (init_session cur) - 1) * PAGE_SIZE) fs)
                        (init_session cur))\<lparr>page := pg\<rparr>), n1)"
    using False by (intro sim_loop) (simp_all add: init_session_def)
  then obtain n1 pg where "sync_loop (sim_remote fs) flt b cur (init_session cur) n =
           Some (Inr ((scan_findings b cur fs (init_session cur))\<lparr>page := pg\<rparr>), n1)"
    by (auto simp: init_session_def)
  then show ?thesis by (simp add: scan_new_findings init_session_def)
qed

lemma fetch_category_sim:
  assumes "cur = get_max_id key st" and "b = (cur = 0)"
  shows "\<exists>n1. fetch_category (sim_remote fs) flt xf key st w =
     Some (Inr (length (fresh b cur fs),
                add_count flt (length (fresh b cur fs))
                  (set_max_id key (Max (insert cur (finding_id ` set (fresh b cur fs)))) st)),
           if fresh b cur fs \<noteq> []
           then w\<lparr>net := n1,
                  xlsx := (xlsx w)(xf \<mapsto>
                    (if cur = 0 then create_workbook_with_headers
                     else load_or_create_workbook (xlsx w xf))
                    @ map finding_to_row (rev (fresh b cur fs)))\<rparr>
           else w\<lparr>net := n1\<rparr>)"
proof -
  from sim_sync [of fs flt b cur "net w"] obtain s n1 where
    run: "sync_loop (sim_remote fs) flt b cur (init_session cur) (net w) = Some (Inr s, n1)"
    and nf: "new_findings s = fresh b cur fs"
    by blast
  have mx: "new_max_id s = Max (insert cur (finding_id ` set (fresh b cur fs)))"
    using sync_loop_new_max_id [OF run] nf by simp
  have "fetch_category (sim_remote fs) flt xf key st w =
     Some (Inr (length (fresh b cur fs),
                add_count flt (length (fresh b cur fs))
                  (set_max_id key (Max (insert cur (finding_id ` set (fresh b cur fs)))) st)),
           if fresh b cur fs \<noteq> []
           then w\<lparr>net := n1,
                  xlsx := (xlsx w)(xf \<mapsto>
                    (if cur = 0 then create_workbook_with_headers
                     else load_or_create_workbook (xlsx w xf))
                    @ map finding_to_row (rev (fresh b cur fs)))\<rparr>
           else w\<lparr>net := n1\<rparr>)"
    using fetch_category_result [OF run [unfolded assms], where xf = xf] nf mx assms by simp
  then show ?thesis by blast
qed

lemma fresh_second_run:
  assumes pos: "\<forall>f\<in>set fs. 0 < finding_id f"
    and cur1: "cur1 = Max (insert cur (finding_id ` set (fresh (cur = 0) cur fs)))"
  shows "fresh (cur1 = 0) cur1 fs = []"
proof (cases fs)
  case Nil
  then show ?thesis by (simp add: fresh_def)
next
  case (Cons f fs')
  have fpos: "0 < finding_id f" using pos Cons by simp
  have fin: "finite (finding_id ` set (fresh (cur = 0) cur fs))" by simp
  have ge: "cur \<le> cur1" unfolding cur1 using fin by simp
  have "finding_id f \<le> cur1"
  proof (cases "f \<in> set (fresh (cur = 0) cur fs)")
    case True
    then have "finding_id f \<in> insert cur (finding_id ` set (fresh (cur = 0) cur fs))" by simp
    then show ?thesis unfolding cur1 using fin by (intro Max_ge) simp_all
  next
    case False
    then have "cur \<noteq> 0" and "\<not> cur < finding_id f"
      using Cons by (auto simp: fresh_def split: if_splits)
    then show ?thesis using ge by simp
  qed
  then have "cur1 \<noteq> 0" and "\<not> cur1 < finding_id f" using fpos by simp_all
  then show ?thesis using Cons by (simp add: fresh_def)
qed

section \<open>Stores and listings\<close>

lemma row_id_finding_to_row [simp]: "row_id (finding_to_row f) = finding_id f"
  by (cases "fid f") (simp_all add: row_id_def finding_to_row_def finding_id_def)

lemma store_ids_append:
  "wb \<noteq> [] \<Longrightarrow> store_ids (wb @ map finding_to_row xs) = store_ids wb @ map finding_id xs"
  by (cases wb) (simp_all add: store_ids_def)

lemma store_ids_fresh_workbook [simp]: "store_ids create_workbook_with_headers = []"
  by (simp add: store_ids_def create_workbook_with_headers_def)

lemma fresh_is_take: "fresh b cur fs = take (length (fresh b cur fs)) fs"
  by (simp add: fresh_def takeWhile_eq_take [symmetric])

lemma fresh_ascending:
  assumes "sorted_wrt (>) (map finding_id fs)"
  shows "sorted_wrt (<) (map finding_id (rev (fresh b cur fs)))"
proof -
  have "sorted_wrt (>) (take (length (fresh b cur fs)) (map finding_id fs))"
    using assms by (rule sorted_wrt_take)
  then have "sorted_wrt (>) (map finding_id (fresh b cur fs))"
    using fresh_is_take [of b cur fs] by (simp add: take_map)
  then show ?thesis
    by (simp add: rev_map [symmetric] sorted_wrt_rev)
qed

lemma fresh_above_watermark:
  "cur \<noteq> 0 \<Longrightarrow> f \<in> set (fresh (cur = 0) cur fs) \<Longrightarrow> cur < finding_id f"
  by (auto simp: fresh_def dest: set_takeWhileD)

lemma fresh_is_filter:
  assumes "sorted_wrt (>) (map finding_id fs)" and "cur \<noteq> 0"
  shows "fresh (cur = 0) cur fs = filter (\<lambda>f. cur < finding_id f) fs"
proof -
  have "sorted_wrt (<) (rev (map finding_id fs))"
    using assms(1) by (simp add: sorted_wrt_rev)
  then have "sorted (rev (map finding_id fs))"
    by (rule strict_sorted_imp_sorted)
  then have "filter (\<lambda>f. cur < finding_id f) fs = takeWhile (\<lambda>f. cur < finding_id f) fs"
    by (rule filter_equals_takeWhile_sorted_rev)
  then show ?thesis using assms(2) by (simp add: fresh_def)
qed

lemma finding_id_numbered [simp]: "map finding_id (numbered ids) = ids"
  by (induction ids) (simp_all add: numbered_def finding_id_def)

lemma listing_length:
  assumes "map finding_id fs = rev [lo..hi]"
  shows "length fs = nat (hi - lo + 1)"
proof -
  have "length (map finding_id fs) = length (rev [lo..hi])" by (simp only: assms)
  then show ?thesis by simp
qed

lemma listing_ids:
  assumes "map finding_id fs = rev [lo..hi]"
  shows "finding_id ` set fs = {lo..hi}"
proof -
  have "set (map finding_id fs) = set (rev [lo..hi])" by (simp only: assms)
  then show ?thesis by simp
qed

lemma listing_Max:
  assumes "map finding_id fs = rev [lo..hi]" and "c < lo"
  shows "Max (insert c (finding_id ` set fs)) = (if lo \<le> hi then hi else c)"
proof (cases "lo \<le> hi")
  case True
  have "Max (insert c {lo..hi}) = hi"
    using True assms(2) by (intro Max_eqI) auto
  then show ?thesis using True listing_ids [OF assms(1)] by simp
next
  case False
  then show ?thesis using listing_ids [OF assms(1)] by simp
qed

lemma listing_rows:
  assumes "map finding_id fs = rev [lo..hi]"
  shows "map finding_id (rev fs) = [lo..hi]"
proof -
  have "map finding_id (rev fs) = rev (map finding_id fs)" by (simp add: rev_map)
  also have "\<dots> = rev (rev [lo..hi])" by (simp only: assms)
  finally show ?thesis by simp
qed

lemma fresh_added:
  assumes old: "map finding_id old = rev [1..int N]"
    and added: "map finding_id added = rev [int N + 1..int N + int M]"
  shows "fresh (int N = 0) (int N) (added @ old) = added"
proof (cases "N = 0")
  case True
  then have "old = []" using listing_length [OF old] by simp
  then show ?thesis using True by (simp add: fresh_def)
next
  case False
  have a: "\<forall>g\<in>set added. int N < finding_id g"
  proof
    fix g
    assume "g \<in> set added"
    then have "finding_id g \<in> finding_id ` set added" by simp
    then have "finding_id g \<in> {int N + 1..int N + int M}"
      unfolding listing_ids [OF added] .
    then show "int N < finding_id g" by simp
  qed
  have "\<forall>g\<in>set old. \<not> int N < finding_id g"
  proof
    fix g
    assume "g \<in> set old"
    then have "finding_id g \<in> finding_id ` set old" by simp
    then have "finding_id g \<in> {1..int N}"
      unfolding listing_ids [OF old] .
    then show "\<not> int N < finding_id g" by simp
  qed
  then have b: "takeWhile (\<lambda>f. int N < finding_id f) old = []"
    by (cases old) simp_all
  show ?thesis
    using False a b by (simp add: fresh_def takeWhile_append2)
qed

lemma upto_two_runs: "[1..int N] @ [int N + 1..int N + int M] = [1..int N + int M]"
proof (cases "N = 0")
  case True
  then show ?thesis by simp
next
  case False
  then show ?thesis using upto_split2 [of 1 "int N" "int N + int M"] by simp
qed

section \<open>The boundary between new and known records\<close>

text \<open>
  Claim C4. In an incremental sync (watermark \<open>X\<close>, not the sentinel 0), when a page
  delivers records above the watermark followed by a record whose id is exactly \<open>X\<close>,
  the loop returns with only the records before it appended to the new findings and
  counted, the stop flag set, and no request sent after this page: the test is
  \<open>finding_id \<le> X\<close>, so only ids strictly above \<open>X\<close> are new.
\<close>

theorem boundary_record_stops_sync:
  assumes "X \<noteq> 0" and "\<not> should_stop s"
    and "fetch_page nw (page s) flt n = (Inr (Some d), n1)"
    and "findings d = front @ f # rest"
    and "\<forall>g\<in>set front. X < finding_id g"
    and "finding_id f = X"
  shows "\<exists>s' n2. sync_loop nw flt (X = 0) X s n = Some (Inr s', n2)
           \<and> new_findings s' = new_findings s @ front
           \<and> total_fetched s' = total_fetched s + length front
           \<and> should_stop s'
           \<and> requests n2 = requests n1"
proof -
  let ?s1 = "scan_findings False X (findings d) s"
  have fr: "fresh False X (findings d) = front"
    using assms(4-6) by (simp add: fresh_boundary)
  have nf: "new_findings ?s1 = new_findings s @ front"
    by (simp add: scan_new_findings fr)
  have tf: "total_fetched ?s1 = total_fetched s + length front"
    by (simp add: scan_total_fetched fr)
  have "should_stop ?s1 = (should_stop s \<or> front \<noteq> findings d)"
    by (simp only: scan_should_stop fr)
  then have st: "should_stop ?s1"
    using assms(4) by simp
  show ?thesis
  proof (cases "int (page s) \<ge> (case total_pages d of None \<Rightarrow> 0 | Some t \<Rightarrow> t)")
    case True
    then have "sync_loop nw flt (X = 0) X s n = Some (Inr ?s1, n1)"
      using assms(1,4) sync_loop_page [OF assms(2,3), of False X] by simp
    then show ?thesis using nf tf st by simp
  next
    case False
    let ?s2 = "?s1\<lparr>page := Suc (page s)\<rparr>"
    let ?n2 = "sleep (Request_delay REQUEST_DELAY) n1"
    have "sync_loop nw flt (X = 0) X s n = sync_loop nw flt False X ?s2 ?n2"
      using assms(1,4) False sync_loop_page [OF assms(2,3), of False X] by simp
    also have "\<dots> = Some (Inr ?s2, ?n2)"
      using st by (simp add: sync_loop_stop)
    finally show ?thesis using nf tf st by (simp add: sleep_def)
  qed
qed

theorem boundary_record_stops_sync_witness:
  "(5::int) \<noteq> 0 \<and> \<not> should_stop (init_session 5)
   \<and> fetch_page (constant_remote (only_page (numbered [7, 6, 5, 4])))
        (page (init_session 5)) [HIGH, MEDIUM] fresh_net
      = (Inr (Some (only_page (numbered [7, 6, 5, 4]))), post [HIGH, MEDIUM] 1 fresh_net)
   \<and> findings (only_page (numbered [7, 6, 5, 4])) = numbered [7, 6] @ hd (numbered [5]) # numbered [4]
   \<and> list_all (\<lambda>g. 5 < finding_id g) (numbered [7, 6])
   \<and> finding_id (hd (numbered [5])) = 5
   \<and> (\<exists>s' n2. sync_loop (constant_remote (only_page (numbered [7, 6, 5, 4])))
                  [HIGH, MEDIUM] (5 = (0::int)) 5 (init_session 5) fresh_net = Some (Inr s', n2)
        \<and> new_findings s' = numbered [7, 6]
        \<and> total_fetched s' = 2
        \<and> should_stop s'
        \<and> requests n2 = 1)"
proof -
  let ?d = "only_page (numbered [7, 6, 5, 4])"
  have h1: "(5::int) \<noteq> 0" by simp
  have h2: "\<not> should_stop (init_session 5)"
    by (simp add: init_session_def)
  have h3: "fetch_page (constant_remote ?d) (page (init_session 5)) [HIGH, MEDIUM] fresh_net
      = (Inr (Some ?d), post [HIGH, MEDIUM] 1 fresh_net)"
    by (simp add: fetch_page_constant only_page_def init_session_def)
  have h4: "findings ?d = numbered [7, 6] @ hd (numbered [5]) # numbered [4]"
    by (simp add: only_page_def numbered_def)
  have h5: "\<forall>g\<in>set (numbered [7, 6]). 5 < finding_id g"
    by (simp add: numbered_def finding_id_def)
  have h6: "finding_id (hd (numbered [5])) = 5"
    by (simp add: numbered_def finding_id_def)
  from boundary_record_stops_sync [OF h1 h2 h3 h4 h5 h6] h1 h2 h3 h4 h5 h6
  show ?thesis
    by (auto simp: init_session_def numbered_def post_def fresh_net_def numeral_2_eq_2)
qed

section \<open>A response without a page count\<close>

text \<open>
  Claim C10. When the metadata of a page lack \<open>totalPages\<close>, or give 0, the test
  \<open>page >= total_pages\<close> of line 255 holds at once: the loop returns after the findings
  of that page were scanned, with no further request, also when the page was a full batch
  of \<open>PAGE_SIZE\<close> findings.
\<close>

theorem missing_total_pages_stops_after_page:
  assumes "\<not> should_stop s"
    and "fetch_page nw (page s) flt n = (Inr (Some d), n1)"
    and "total_pages d = None \<or> total_pages d = Some 0"
  shows "sync_loop nw flt b cur s n = Some (Inr (scan_findings b cur (findings d) s), n1)"
  using assms by (auto simp: sync_loop_page)

theorem missing_total_pages_stops_after_page_witness:
  "\<not> should_stop (init_session 0)
   \<and> fetch_page (constant_remote (page_without_total (numbered (rev [1..100]))))
        (page (init_session 0)) [HIGH, MEDIUM] fresh_net
      = (Inr (Some (page_without_total (numbered (rev [1..100])))), post [HIGH, MEDIUM] 1 fresh_net)
   \<and> total_pages (page_without_total (numbered (rev [1..100]))) = None
   \<and> length (findings (page_without_total (numbered (rev [1..100])))) = PAGE_SIZE
   \<and> sync_loop (constant_remote (page_without_total (numbered (rev [1..100]))))
        [HIGH, MEDIUM] True 0 (init_session 0) fresh_net
      = Some (Inr (scan_findings True 0 (numbered (rev [1..100])) (init_session 0)),
              post [HIGH, MEDIUM] 1 fresh_net)"
proof -
  let ?d = "page_without_total (numbered (rev [1..100]))"
  have h1: "\<not> should_stop (init_session 0)"
    by (simp add: init_session_def)
  have h2: "fetch_page (constant_remote ?d) (page (init_session 0)) [HIGH, MEDIUM] fresh_net
      = (Inr (Some ?d), post [HIGH, MEDIUM] 1 fresh_net)"
    by (simp add: fetch_page_constant page_without_total_def init_session_def)
  have h3: "total_pages ?d = None \<or> total_pages ?d = Some 0"
    by (simp add: page_without_total_def)
  have h4: "length (findings ?d) = PAGE_SIZE"
    by (simp add: page_without_total_def numbered_def PAGE_SIZE_def)
  have h5: "findings ?d = numbered (rev [1..100])"
    by (simp add: page_without_total_def)
  from missing_total_pages_stops_after_page [OF h1 h2 h3, of True 0] h1 h2 h3 h4 h5
  show ?thesis by (simp add: page_without_total_def)
qed

section \<open>The watermark\<close>

text \<open>
  Claim C5. Whenever \<open>fetch_category\<close> returns, the watermark of its key is not below
  the one it started from, and it is the maximum of the old watermark and the ids of the
  findings fetched in this run (the old watermark stands for the maximum of the earlier
  runs); with no new finding it is unchanged. The watermark of the other key is not
  touched.
\<close>

theorem watermark_after_sync:
  assumes "fetch_category nw flt xf key st w = Some (Inr (k, st'), w')"
  shows "get_max_id key st \<le> get_max_id key st'
     \<and> (\<exists>s n1. sync_loop nw flt (get_max_id key st = 0) (get_max_id key st)
                   (init_session (get_max_id key st)) (net w) = Some (Inr s, n1)
           \<and> k = length (new_findings s)
           \<and> get_max_id key st' =
               Max (insert (get_max_id key st) (finding_id ` set (new_findings s))))
     \<and> (k = 0 \<longrightarrow> get_max_id key st' = get_max_id key st)
     \<and> (\<forall>key'. key' \<noteq> key \<longrightarrow> get_max_id key' st' = get_max_id key' st)"
proof -
  let ?cur = "get_max_id key st"
  from fetch_category_returns [OF assms] obtain s n1 where
    run: "sync_loop nw flt (?cur = 0) ?cur (init_session ?cur) (net w) = Some (Inr s, n1)"
    by blast
  have k: "k = length (new_findings s)"
    and st': "st' = add_count flt (length (new_findings s)) (set_max_id key (new_max_id s) st)"
    using assms fetch_category_result [OF run, where xf = xf] by auto
  have mx: "new_max_id s = Max (insert ?cur (finding_id ` set (new_findings s)))"
    by (rule sync_loop_new_max_id [OF run])
  have wm: "get_max_id key st' = new_max_id s"
    by (simp add: st')
  have "?cur \<le> new_max_id s" unfolding mx by simp
  moreover have "k = 0 \<Longrightarrow> new_max_id s = ?cur" using k mx by simp
  moreover have "\<forall>key'. key' \<noteq> key \<longrightarrow> get_max_id key' st' = get_max_id key' st"
    by (simp add: st')
  ultimately show ?thesis using run k mx wm by auto
qed

theorem watermark_after_sync_witness:
  "fetch_category (constant_remote (only_page (numbered [7, 6, 5, 4]))) [HIGH, MEDIUM]
      HIGH_MEDIUM_FILE High_medium_max_id (default_state\<lparr>high_medium_max_id := 5\<rparr>) empty_world
    = Some (Inr (2, default_state\<lparr>high_medium_max_id := 7, high_medium_count := 2\<rparr>),
            with_store HIGH_MEDIUM_FILE (HEADERS # map finding_to_row (numbered [6, 7]))
              (empty_world\<lparr>net := post [HIGH, MEDIUM] 1 fresh_net\<rparr>))
   \<and> get_max_id High_medium_max_id (default_state\<lparr>high_medium_max_id := 5\<rparr>)
       \<le> get_max_id High_medium_max_id
            (default_state\<lparr>high_medium_max_id := 7, high_medium_count := 2\<rparr>)
   \<and> get_max_id Low_gas_max_id (default_state\<lparr>high_medium_max_id := 7, high_medium_count := 2\<rparr>)
       = get_max_id Low_gas_max_id (default_state\<lparr>high_medium_max_id := 5\<rparr>)"
proof -
  have h: "fetch_category (constant_remote (only_page (numbered [7, 6, 5, 4]))) [HIGH, MEDIUM]
      HIGH_MEDIUM_FILE High_medium_max_id (default_state\<lparr>high_medium_max_id := 5\<rparr>) empty_world
    = Some (Inr (2, default_state\<lparr>high_medium_max_id := 7, high_medium_count := 2\<rparr>),
            with_store HIGH_MEDIUM_FILE (HEADERS # map finding_to_row (numbered [6, 7]))
              (empty_world\<lparr>net := post [HIGH, MEDIUM] 1 fresh_net\<rparr>))"
    by (subst fetch_category_only_page [OF refl refl])
       (simp add: get_max_id_def set_max_id_def add_count_def default_state_def fresh_def
          numbered_def finding_id_def with_store_def empty_world_def
          load_or_create_workbook_def create_workbook_with_headers_def)
  from watermark_after_sync [OF h] h show ?thesis by simp
qed

section \<open>Rate limiting\<close>




section \<open>Which workbook the rows are appended to\<close>

text \<open>
  Claim C9, as amended. Whenever \<open>fetch_category\<close> returns with new findings, the store
  written is a workbook followed by one row per new finding, and that workbook is chosen
  by the watermark first: with the watermark at the sentinel 0 it is a fresh workbook with
  the header row only, whether or not the file exists (an existing file is replaced);
  otherwise it is the existing file's rows when the file exists, and a fresh workbook with
  the header row when it does not. With no new finding nothing is written. No other file
  is touched.
\<close>

theorem workbook_chosen_by_watermark_then_existence:
  assumes "fetch_category nw flt xf key st w = Some (Inr (k, st'), w')"
  shows "\<exists>batch. length batch = k
     \<and> xlsx w' xf =
         (if k = 0 then xlsx w xf
          else Some ((if get_max_id key st = 0 then [HEADERS]
                      else (case xlsx w xf of Some wb \<Rightarrow> wb | None \<Rightarrow> [HEADERS]))
                     @ map finding_to_row batch))
     \<and> (\<forall>other. other \<noteq> xf \<longrightarrow> xlsx w' other = xlsx w other)"
proof -
  from fetch_category_returns [OF assms] obtain s n1 where
    run: "sync_loop nw flt (get_max_id key st = 0) (get_max_id key st)
            (init_session (get_max_id key st)) (net w) = Some (Inr s, n1)"
    by blast
  have k: "k = length (new_findings s)"
    and w': "w' = (if new_findings s \<noteq> []
           then w\<lparr>net := n1,
                  xlsx := (xlsx w)(xf \<mapsto>
                    (if get_max_id key st = 0 then create_workbook_with_headers
                     else load_or_create_workbook (xlsx w xf))
                    @ map finding_to_row (rev (new_findings s)))\<rparr>
           else w\<lparr>net := n1\<rparr>)"
    using assms fetch_category_result [OF run, where xf = xf] by auto
  have "length (rev (new_findings s)) = k" using k by simp
  moreover have "xlsx w' xf =
         (if k = 0 then xlsx w xf
          else Some ((if get_max_id key st = 0 then [HEADERS]
                      else (case xlsx w xf of Some wb \<Rightarrow> wb | None \<Rightarrow> [HEADERS]))
                     @ map finding_to_row (rev (new_findings s))))"
    using k by (auto simp: w' create_workbook_with_headers_def load_or_create_workbook_def split: option.splits)
  moreover have "\<forall>other. other \<noteq> xf \<longrightarrow> xlsx w' other = xlsx w other"
    by (simp add: w')
  ultimately show ?thesis by blast
qed

theorem workbook_chosen_by_watermark_then_existence_witness:
  "fetch_category (constant_remote (only_page (numbered [7, 6, 5, 4]))) [HIGH, MEDIUM]
      HIGH_MEDIUM_FILE High_medium_max_id (default_state\<lparr>high_medium_max_id := 5\<rparr>)
      (with_store HIGH_MEDIUM_FILE (HEADERS # map finding_to_row (numbered [5])) empty_world)
    = Some (Inr (2, default_state\<lparr>high_medium_max_id := 7, high_medium_count := 2\<rparr>),
            with_store HIGH_MEDIUM_FILE (HEADERS # map finding_to_row (numbered [5, 6, 7]))
              (empty_world\<lparr>net := post [HIGH, MEDIUM] 1 fresh_net\<rparr>))
   \<and> xlsx (with_store HIGH_MEDIUM_FILE (HEADERS # map finding_to_row (numbered [5, 6, 7]))
              (empty_world\<lparr>net := post [HIGH, MEDIUM] 1 fresh_net\<rparr>)) LOW_GAS_FILE
       = xlsx (with_store HIGH_MEDIUM_FILE (HEADERS # map finding_to_row (numbered [5])) empty_world)
           LOW_GAS_FILE"
proof -
  have h: "fetch_category (constant_remote (only_page (numbered [7, 6, 5, 4]))) [HIGH, MEDIUM]
      HIGH_MEDIUM_FILE High_medium_max_id (default_state\<lparr>high_medium_max_id := 5\<rparr>)
      (with_store HIGH_MEDIUM_FILE (HEADERS # map finding_to_row (numbered [5])) empty_world)
    = Some (Inr (2, default_state\<lparr>high_medium_max_id := 7, high_medium_count := 2\<rparr>),
            with_store HIGH_MEDIUM_FILE (HEADERS # map finding_to_row (numbered [5, 6, 7]))
              (empty_world\<lparr>net := post [HIGH, MEDIUM] 1 fresh_net\<rparr>))"
    by (subst fetch_category_only_page [OF refl refl])
       (simp add: get_max_id_def set_max_id_def add_count_def default_state_def fresh_def
          numbered_def finding_id_def with_store_def empty_world_def
          load_or_create_workbook_def create_workbook_with_headers_def)
  from workbook_chosen_by_watermark_then_existence [OF h] h show ?thesis by auto
qed

text \<open>
  Claim C9 as the specification states it fails: with the watermark at 0 and a store on
  disk, the sync does not open the store; the file it saves holds the header and the new
  rows only, and the row that was there is gone.
\<close>

theorem open_or_create_by_existence_counterexample:
  "xlsx (with_store HIGH_MEDIUM_FILE (HEADERS # map finding_to_row (numbered [5])) empty_world)
      HIGH_MEDIUM_FILE = Some (HEADERS # map finding_to_row (numbered [5]))
   \<and> fetch_category (constant_remote (only_page (numbered [7]))) [HIGH, MEDIUM]
      HIGH_MEDIUM_FILE High_medium_max_id default_state
      (with_store HIGH_MEDIUM_FILE (HEADERS # map finding_to_row (numbered [5])) empty_world)
    = Some (Inr (1, default_state\<lparr>high_medium_max_id := 7, high_medium_count := 1\<rparr>),
            with_store HIGH_MEDIUM_FILE (HEADERS # map finding_to_row (numbered [7]))
              (empty_world\<lparr>net := post [HIGH, MEDIUM] 1 fresh_net\<rparr>))
   \<and> \<not> prefix (HEADERS # map finding_to_row (numbered [5]))
           (HEADERS # map finding_to_row (numbered [7]))"
proof -
  have "fetch_category (constant_remote (only_page (numbered [7]))) [HIGH, MEDIUM]
      HIGH_MEDIUM_FILE High_medium_max_id default_state
      (with_store HIGH_MEDIUM_FILE (HEADERS # map finding_to_row (numbered [5])) empty_world)
    = Some (Inr (1, default_state\<lparr>high_medium_max_id := 7, high_medium_count := 1\<rparr>),
            with_store HIGH_MEDIUM_FILE (HEADERS # map finding_to_row (numbered [7]))
              (empty_world\<lparr>net := post [HIGH, MEDIUM] 1 fresh_net\<rparr>))"
    by (subst fetch_category_only_page [OF refl refl])
       (simp add: get_max_id_def set_max_id_def add_count_def default_state_def fresh_def
          numbered_def finding_id_def with_store_def empty_world_def
          load_or_create_workbook_def create_workbook_with_headers_def)
  then show ?thesis
    by (simp add: with_store_def numbered_def finding_to_row_def)
qed

section \<open>A page that cannot be fetched\<close>

text \<open>
  Claim C1 against the code. The first page of HIGH/MEDIUM delivers three findings and
  announces a second page; the three attempts for that second page all fail in transport.
  \<open>fetch_page\<close> re-raises the last failure (line 155), nothing catches it, and the run
  ends there: the three findings are not written, no LOW/GAS request is sent, and the
  state is not saved.
\<close>

theorem transport_failure_aborts_run:
  "main (scripted [Ok (first_of_two_pages (numbered [3, 2, 1])),
                   Request_failed, Request_failed, Request_failed])
        (Some ''key'') 0 empty_world
     = Some (Inl RequestException,
             empty_world\<lparr>net :=
               \<lparr>requests = 4,
                events = [Request [HIGH, MEDIUM] 1, Request_delay 3,
                          Request [HIGH, MEDIUM] 2, Retry_wait 5,
                          Request [HIGH, MEDIUM] 2, Retry_wait 10,
                          Request [HIGH, MEDIUM] 2]\<rparr>\<rparr>)
   \<and> xlsx empty_world HIGH_MEDIUM_FILE = None
   \<and> state_json empty_world = None"
proof -
  let ?nw = "scripted [Ok (first_of_two_pages (numbered [3, 2, 1])),
                   Request_failed, Request_failed, Request_failed]"
  let ?n2 = "\<lparr>requests = 4,
                events = [Request [HIGH, MEDIUM] 1, Request_delay 3,
                          Request [HIGH, MEDIUM] 2, Retry_wait 5,
                          Request [HIGH, MEDIUM] 2, Retry_wait 10,
                          Request [HIGH, MEDIUM] 2]\<rparr>"
  have p1: "fetch_page ?nw 1 [HIGH, MEDIUM] fresh_net
      = (Inr (Some (first_of_two_pages (numbered [3, 2, 1]))), post [HIGH, MEDIUM] 1 fresh_net)"
    by (simp add: fetch_page_def fetch_attempts.simps [of _ _ _ 0] MAX_RETRIES_def scripted_def
        fresh_net_def first_of_two_pages_def)
  have p2: "fetch_page ?nw 2 [HIGH, MEDIUM]
        (sleep (Request_delay REQUEST_DELAY) (post [HIGH, MEDIUM] 1 fresh_net))
      = (Inl RequestException, ?n2)"
    by (simp add: fetch_page_def fetch_attempts.simps MAX_RETRIES_def RETRY_DELAY_def
        REQUEST_DELAY_def scripted_def fresh_net_def sleep_def post_def)
  have ne: "numbered [3, 2, 1] \<noteq> []" by (simp add: numbered_def)
  have loop: "sync_loop ?nw [HIGH, MEDIUM] True 0 (init_session 0) fresh_net
      = Some (Inl RequestException, ?n2)"
    using sync_loop_two_pages_second_fails [OF p1 p2 ne] by simp
  have cat: "fetch_category ?nw [HIGH, MEDIUM] HIGH_MEDIUM_FILE High_medium_max_id
        (load_state empty_world) empty_world
      = Some (Inl RequestException, empty_world\<lparr>net := ?n2\<rparr>)"
    using loop
    by (simp add: fetch_category_def Let_def load_state_def empty_world_def default_state_def
        get_max_id_def)
  show ?thesis
    using cat by (simp add: main_def get_api_key_def empty_world_def)
qed

text \<open>
  The sibling path: when the three attempts for the second page are answered with status
  429 instead, \<open>fetch_page\<close> returns no page, the loop ends on line 223, and the run goes
  on as the specification describes: the three findings are written oldest first,
  LOW/GAS is synced, and the state is saved with the watermark 3.
\<close>

lemma rate_limited_page_truncates_category:
  "main (scripted [Ok (first_of_two_pages (numbered [3, 2, 1])),
                   Too_many_requests, Too_many_requests, Too_many_requests,
                   Ok (only_page [])])
        (Some ''key'') 0 empty_world
     = Some (Inr 3,
             save_state 0
               \<lparr>high_medium_max_id = 3, low_gas_max_id = 0, last_run = None,
                high_medium_count = 3, low_gas_count = 0\<rparr>
               (with_store HIGH_MEDIUM_FILE (HEADERS # map finding_to_row (numbered [1, 2, 3]))
                  (empty_world\<lparr>net :=
                     \<lparr>requests = 5,
                      events = [Request [HIGH, MEDIUM] 1, Request_delay 3,
                                Request [HIGH, MEDIUM] 2, Rate_limit_wait,
                                Request [HIGH, MEDIUM] 2, Rate_limit_wait,
                                Request [HIGH, MEDIUM] 2, Rate_limit_wait,
                                Request [LOW, GAS] 1]\<rparr>\<rparr>)))"
proof -
  let ?nw = "scripted [Ok (first_of_two_pages (numbered [3, 2, 1])),
                   Too_many_requests, Too_many_requests, Too_many_requests,
                   Ok (only_page [])]"
  let ?n2 = "\<lparr>requests = 4,
                events = [Request [HIGH, MEDIUM] 1, Request_delay 3,
                          Request [HIGH, MEDIUM] 2, Rate_limit_wait,
                          Request [HIGH, MEDIUM] 2, Rate_limit_wait,
                          Request [HIGH, MEDIUM] 2, Rate_limit_wait]\<rparr>"
  let ?s = "(scan_findings True 0 (numbered [3, 2, 1]) (init_session 0))\<lparr>page := 2\<rparr>"
  let ?st1 = "\<lparr>high_medium_max_id = 3, low_gas_max_id = 0, last_run = None,
                high_medium_count = 3, low_gas_count = 0\<rparr>"
  let ?w1 = "with_store HIGH_MEDIUM_FILE (HEADERS # map finding_to_row (numbered [1, 2, 3]))
                  (empty_world\<lparr>net := ?n2\<rparr>)"
  have p1: "fetch_page ?nw 1 [HIGH, MEDIUM] fresh_net
      = (Inr (Some (first_of_two_pages (numbered [3, 2, 1]))), post [HIGH, MEDIUM] 1 fresh_net)"
    by (simp add: fetch_page_def fetch_attempts.simps [of _ _ _ 0] MAX_RETRIES_def scripted_def
        fresh_net_def first_of_two_pages_def)
  have p2: "fetch_page ?nw 2 [HIGH, MEDIUM]
        (sleep (Request_delay REQUEST_DELAY) (post [HIGH, MEDIUM] 1 fresh_net))
      = (Inr None, ?n2)"
    by (simp add: fetch_page_def fetch_attempts.simps MAX_RETRIES_def
        REQUEST_DELAY_def scripted_def fresh_net_def sleep_def post_def)
  have ne: "numbered [3, 2, 1] \<noteq> []" by (simp add: numbered_def)
  have loop: "sync_loop ?nw [HIGH, MEDIUM] True 0 (init_session 0) fresh_net = Some (Inr ?s, ?n2)"
    using sync_loop_two_pages_second_fails [OF p1 p2 ne] by simp
  have nf: "new_findings ?s = numbered [3, 2, 1]"
    by (simp add: scan_new_findings fresh_def init_session_def)
  have mx: "new_max_id ?s = 3"
    by (simp add: numbered_def finding_id_def init_session_def Let_def)
  have cat1: "fetch_category ?nw [HIGH, MEDIUM] HIGH_MEDIUM_FILE High_medium_max_id
        (load_state empty_world) empty_world = Some (Inr (3, ?st1), ?w1)"
    using loop nf mx
    by (simp add: fetch_category_def Let_def load_state_def empty_world_def default_state_def
        get_max_id_def set_max_id_def add_count_def with_store_def
        create_workbook_with_headers_def numbered_def)
  let ?n3 = "post [LOW, GAS] 1 ?n2"
  have s0: "\<not> should_stop (init_session 0)" and pg: "page (init_session 0) = 1"
    by (simp_all add: init_session_def)
  have p3: "fetch_page ?nw (page (init_session 0)) [LOW, GAS] ?n2 = (Inr (Some (only_page [])), ?n3)"
    by (simp add: pg fetch_page_def fetch_attempts.simps [of _ _ _ 0] MAX_RETRIES_def
        scripted_def only_page_def)
  have loop2: "sync_loop ?nw [LOW, GAS] True 0 (init_session 0) ?n2
      = Some (Inr (init_session 0), ?n3)"
    using sync_loop_page [OF s0 p3, of True 0] by (simp add: only_page_def)
  have cat2: "fetch_category ?nw [LOW, GAS] LOW_GAS_FILE Low_gas_max_id ?st1 ?w1
      = Some (Inr (0, ?st1), ?w1\<lparr>net := ?n3\<rparr>)"
    using loop2
    by (simp add: fetch_category_def Let_def get_max_id_def set_max_id_def add_count_def
        with_store_def init_session_def)
  show ?thesis
    using cat1 cat2
    by (simp add: main_def get_api_key_def with_store_def empty_world_def post_def save_state_def)
qed

section \<open>Idempotence\<close>

text \<open>
  Claim C8. Two syncs in succession against a remote that holds the same listing (records
  with positive ids, as the remote assigns them; 0 is the sentinel): both return, the
  second finds no new record, leaves the watermark where the first run put it and writes
  no file.
\<close>

theorem second_sync_finds_nothing:
  assumes "\<forall>f\<in>set fs. 0 < finding_id f"
  shows "\<exists>k1 st1 w1 st2 w2.
      fetch_category (sim_remote fs) flt xf key st w = Some (Inr (k1, st1), w1)
    \<and> fetch_category (sim_remote fs) flt xf key st1 w1 = Some (Inr (0, st2), w2)
    \<and> get_max_id key st2 = get_max_id key st1
    \<and> xlsx w2 = xlsx w1"
proof -
  let ?cur = "get_max_id key st"
  let ?nf = "fresh (?cur = 0) ?cur fs"
  let ?cur1 = "Max (insert ?cur (finding_id ` set ?nf))"
  let ?st1 = "add_count flt (length ?nf) (set_max_id key ?cur1 st)"
  from fetch_category_sim [OF refl refl, of fs flt xf key st w] obtain w1 where
    r1: "fetch_category (sim_remote fs) flt xf key st w = Some (Inr (length ?nf, ?st1), w1)"
    by blast
  have c1: "get_max_id key ?st1 = ?cur1" by simp
  have nf2: "fresh (?cur1 = 0) ?cur1 fs = []"
    using assms by (rule fresh_second_run) simp
  from fetch_category_sim [OF c1 [symmetric] refl, of fs flt xf w1] obtain n2 where
    r2: "fetch_category (sim_remote fs) flt xf key ?st1 w1 =
      Some (Inr (0, add_count flt 0 (set_max_id key ?cur1 ?st1)), w1\<lparr>net := n2\<rparr>)"
    unfolding nf2 by auto
  have a: "get_max_id key (add_count flt 0 (set_max_id key ?cur1 ?st1)) = get_max_id key ?st1"
    by simp
  have b: "xlsx (w1\<lparr>net := n2\<rparr>) = xlsx w1"
    by simp
  from r1 r2 a b show ?thesis by blast
qed

theorem second_sync_finds_nothing_witness:
  "list_all (\<lambda>f. 0 < finding_id f) (numbered [3, 2, 1])
   \<and> (\<exists>k1 st1 w1 st2 w2.
      fetch_category (sim_remote (numbered [3, 2, 1])) [HIGH, MEDIUM] HIGH_MEDIUM_FILE
        High_medium_max_id default_state empty_world = Some (Inr (k1, st1), w1)
    \<and> fetch_category (sim_remote (numbered [3, 2, 1])) [HIGH, MEDIUM] HIGH_MEDIUM_FILE
        High_medium_max_id st1 w1 = Some (Inr (0, st2), w2)
    \<and> get_max_id High_medium_max_id st2 = get_max_id High_medium_max_id st1
    \<and> xlsx w2 = xlsx w1)"
proof -
  have h: "\<forall>f\<in>set (numbered [3, 2, 1]). 0 < finding_id f"
    by (simp add: numbered_def finding_id_def)
  have l: "list_all (\<lambda>f. 0 < finding_id f) (numbered [3, 2, 1])"
    by (simp add: numbered_def finding_id_def)
  from l second_sync_finds_nothing [OF h] show ?thesis by (rule conjI)
qed

section \<open>Order of the rows in the store\<close>

text \<open>
  Claim C7. Against a remote that delivers its listing newest first (ids strictly
  descending), a sync with watermark \<open>cur\<close> returns, and its new records are exactly the
  records of the listing above the watermark (all of them when the watermark is the
  sentinel 0), in the order delivered. When there are any, the file written is the
  workbook the code chose (the former store, or a fresh one with the header row) followed
  by the rows of these records in reverse, that is in ascending id order, the oldest of
  the batch first; when there are none the file is left as it was. If the store on disk
  agreed with the watermark before the run (ids increasing from top to bottom, none above
  the watermark), the store agrees with the new watermark after it: the ids increase from
  top to bottom over all runs combined.
\<close>

theorem rows_appended_oldest_first:
  assumes cur: "cur = get_max_id key st"
    and desc: "sorted_wrt (>) (map finding_id fs)"
    and ok: "\<forall>wb. xlsx w xf = Some wb \<longrightarrow> store_ok cur wb"
  shows "\<exists>st' w'.
      fetch_category (sim_remote fs) flt xf key st w
        = Some (Inr (length (fresh (cur = 0) cur fs), st'), w')
    \<and> xlsx w' xf =
        (if fresh (cur = 0) cur fs = [] then xlsx w xf
         else Some ((if cur = 0 then create_workbook_with_headers
                     else load_or_create_workbook (xlsx w xf))
                    @ map finding_to_row (rev (fresh (cur = 0) cur fs))))
    \<and> (cur = 0 \<longrightarrow> fresh (cur = 0) cur fs = fs)
    \<and> (cur \<noteq> 0 \<longrightarrow> fresh (cur = 0) cur fs = filter (\<lambda>f. cur < finding_id f) fs)
    \<and> sorted_wrt (<) (map finding_id (rev (fresh (cur = 0) cur fs)))
    \<and> get_max_id key st' = Max (insert cur (finding_id ` set (fresh (cur = 0) cur fs)))
    \<and> (\<forall>wb'. xlsx w' xf = Some wb' \<longrightarrow> store_ok (get_max_id key st') wb')"
proof -
  let ?nf = "fresh (cur = 0) cur fs"
  let ?cur1 = "Max (insert cur (finding_id ` set ?nf))"
  let ?st1 = "add_count flt (length ?nf) (set_max_id key ?cur1 st)"
  let ?base = "if cur = 0 then create_workbook_with_headers
               else load_or_create_workbook (xlsx w xf)"
  let ?w1 = "\<lambda>n1. if ?nf \<noteq> []
           then w\<lparr>net := n1, xlsx := (xlsx w)(xf \<mapsto> ?base @ map finding_to_row (rev ?nf))\<rparr>
           else w\<lparr>net := n1\<rparr>"
  from fetch_category_sim [OF cur refl, of fs flt xf w] obtain n1 where
    r1: "fetch_category (sim_remote fs) flt xf key st w = Some (Inr (length ?nf, ?st1), ?w1 n1)"
    by blast
  have c1: "get_max_id key ?st1 = ?cur1" by simp
  have asc: "sorted_wrt (<) (map finding_id (rev ?nf))"
    using desc by (rule fresh_ascending)
  have all: "cur = 0 \<longrightarrow> ?nf = fs"
    by (simp add: fresh_def)
  have filt: "cur \<noteq> 0 \<longrightarrow> ?nf = filter (\<lambda>f. cur < finding_id f) fs"
    using fresh_is_filter [OF desc] by blast
  have fin: "finite (finding_id ` set ?nf)" by simp
  have ge: "cur \<le> ?cur1" using fin by simp
  have le: "finding_id f \<le> ?cur1" if "f \<in> set ?nf" for f
    using that fin by (intro Max_ge) simp_all
  have base: "store_ok cur ?base"
  proof (cases "cur = 0")
    case True
    then show ?thesis by (simp add: store_ok_def create_workbook_with_headers_def store_ids_def)
  next
    case False
    show ?thesis
    proof (cases "xlsx w xf")
      case None
      then show ?thesis
        using False
        by (simp add: store_ok_def load_or_create_workbook_def
            create_workbook_with_headers_def store_ids_def)
    next
      case (Some wb)
      then show ?thesis using False ok by (simp add: load_or_create_workbook_def)
    qed
  qed
  have below: "i < finding_id f" if "i \<in> set (store_ids ?base)" and "f \<in> set ?nf" for i f
  proof (cases "cur = 0")
    case True
    then show ?thesis using that(1) by simp
  next
    case False
    have "i \<le> cur" using base that(1) by (simp add: store_ok_def list_all_iff)
    moreover have "cur < finding_id f" using False that(2) by (rule fresh_above_watermark)
    ultimately show ?thesis by simp
  qed
  have new: "store_ok ?cur1 (?base @ map finding_to_row (rev ?nf))"
  proof -
    have ne: "?base \<noteq> []" using base by (simp add: store_ok_def)
    have ids: "store_ids (?base @ map finding_to_row (rev ?nf))
        = store_ids ?base @ map finding_id (rev ?nf)"
      using ne by (rule store_ids_append)
    have "sorted_wrt (<) (store_ids ?base @ map finding_id (rev ?nf))"
      using base asc below by (auto simp: sorted_wrt_append store_ok_def)
    moreover have "list_all (\<lambda>i. i \<le> ?cur1) (store_ids ?base @ map finding_id (rev ?nf))"
    proof -
      have old: "\<forall>i\<in>set (store_ids ?base). i \<le> ?cur1"
      proof
        fix i
        assume "i \<in> set (store_ids ?base)"
        then have "i \<le> cur" using base by (simp add: store_ok_def list_all_iff)
        then show "i \<le> ?cur1" using ge by (rule order_trans)
      qed
      have batch: "\<forall>i\<in>set (map finding_id (rev ?nf)). i \<le> ?cur1"
        using le by auto
      show ?thesis
        unfolding list_all_iff set_append using old batch by blast
    qed
    ultimately show ?thesis using ne by (simp add: store_ok_def ids)
  qed
  have after: "\<forall>wb'. xlsx (?w1 n1) xf = Some wb' \<longrightarrow> store_ok (get_max_id key ?st1) wb'"
  proof (cases "?nf = []")
    case True
    then show ?thesis using ok by (simp add: c1)
  next
    case False
    then show ?thesis using new by (simp add: c1)
  qed
  have written: "xlsx (?w1 n1) xf =
      (if ?nf = [] then xlsx w xf else Some (?base @ map finding_to_row (rev ?nf)))"
    by simp
  from r1 written all filt asc c1 after show ?thesis by blast
qed

theorem rows_appended_oldest_first_witness:
  "5 = get_max_id High_medium_max_id (default_state\<lparr>high_medium_max_id := 5\<rparr>)
   \<and> sorted_wrt (>) (map finding_id (numbered [7, 6, 5, 4]))
   \<and> store_ok 5 (HEADERS # map finding_to_row (numbered [5]))
   \<and> (\<exists>st' w'.
        fetch_category (sim_remote (numbered [7, 6, 5, 4])) [HIGH, MEDIUM] HIGH_MEDIUM_FILE
          High_medium_max_id (default_state\<lparr>high_medium_max_id := 5\<rparr>)
          (with_store HIGH_MEDIUM_FILE (HEADERS # map finding_to_row (numbered [5])) empty_world)
        = Some (Inr (2, st'), w')
      \<and> xlsx w' HIGH_MEDIUM_FILE = Some (HEADERS # map finding_to_row (numbered [5, 6, 7]))
      \<and> get_max_id High_medium_max_id st' = 7
      \<and> store_ok 7 (HEADERS # map finding_to_row (numbered [5, 6, 7])))"
proof -
  let ?w = "with_store HIGH_MEDIUM_FILE (HEADERS # map finding_to_row (numbered [5])) empty_world"
  let ?st = "default_state\<lparr>high_medium_max_id := 5\<rparr>"
  have h0: "5 = get_max_id High_medium_max_id ?st"
    by (simp add: get_max_id_def)
  have h1: "sorted_wrt (>) (map finding_id (numbered [7, 6, 5, 4]))"
    by (simp add: numbered_def finding_id_def)
  have h3: "store_ok 5 (HEADERS # map finding_to_row (numbered [5]))"
    by (simp add: store_ok_def store_ids_def numbered_def finding_id_def)
  have h2: "\<forall>wb. xlsx ?w HIGH_MEDIUM_FILE = Some wb \<longrightarrow> store_ok 5 wb"
    using h3 by (simp add: with_store_def)
  have fr: "fresh (5 = (0::int)) 5 (numbered [7, 6, 5, 4]) = numbered [7, 6]"
    by (simp add: fresh_def numbered_def finding_id_def)
  have ids: "finding_id ` set (numbered [7, 6]) = {7, 6}"
    by (simp add: numbered_def finding_id_def)
  from rows_appended_oldest_first [OF h0 h1 h2, of "[HIGH, MEDIUM]"]
  obtain st' w' where
    r: "fetch_category (sim_remote (numbered [7, 6, 5, 4])) [HIGH, MEDIUM] HIGH_MEDIUM_FILE
          High_medium_max_id ?st ?w = Some (Inr (length (numbered [7, 6]), st'), w')"
    and f: "xlsx w' HIGH_MEDIUM_FILE =
        (if numbered [7, 6] = [] then xlsx ?w HIGH_MEDIUM_FILE
         else Some ((if (5::int) = 0 then create_workbook_with_headers
                     else load_or_create_workbook (xlsx ?w HIGH_MEDIUM_FILE))
                    @ map finding_to_row (rev (numbered [7, 6]))))"
    and m: "get_max_id High_medium_max_id st' = Max (insert 5 (finding_id ` set (numbered [7, 6])))"
    and s: "\<forall>wb'. xlsx w' HIGH_MEDIUM_FILE = Some wb' \<longrightarrow>
              store_ok (get_max_id High_medium_max_id st') wb'"
    unfolding fr by blast
  have r': "fetch_category (sim_remote (numbered [7, 6, 5, 4])) [HIGH, MEDIUM] HIGH_MEDIUM_FILE
          High_medium_max_id ?st ?w = Some (Inr (2, st'), w')"
    using r by (simp add: numbered_def)
  have f': "xlsx w' HIGH_MEDIUM_FILE = Some (HEADERS # map finding_to_row (numbered [5, 6, 7]))"
    using f by (simp add: numbered_def with_store_def load_or_create_workbook_def)
  have m': "get_max_id High_medium_max_id st' = 7"
    using m unfolding ids by simp
  have s': "store_ok 7 (HEADERS # map finding_to_row (numbered [5, 6, 7]))"
    using s f' m' by simp
  from h0 h1 h3 r' f' m' s' show ?thesis by blast
qed

section \<open>No gaps and no duplicates over two runs\<close>

text \<open>
  Claim C2. The remote holds the ids 1..N, newest first, in pages of \<open>PAGE_SIZE\<close>; an
  initial sync starts with no store and the watermark at 0. Then M records with the ids
  N+1..N+M are added in front and a second sync runs. Both syncs return, with N and M
  new records; after the first the store holds exactly 1..N, after the second it holds
  what it held before followed by exactly the ids above the watermark N, that is 1..N+M,
  each once and in ascending order, and the watermark is N+M.
\<close>

theorem two_syncs_store_all_ids_once:
  assumes wm: "get_max_id key st0 = 0"
    and nofile: "xlsx w0 xf = None"
    and old: "map finding_id old = rev [1..int N]"
    and added: "map finding_id added = rev [int N + 1..int N + int M]"
  shows "\<exists>st1 w1 st2 w2.
      fetch_category (sim_remote old) flt xf key st0 w0 = Some (Inr (N, st1), w1)
    \<and> fetch_category (sim_remote (added @ old)) flt xf key st1 w1 = Some (Inr (M, st2), w2)
    \<and> get_max_id key st1 = int N
    \<and> get_max_id key st2 = int N + int M
    \<and> stored_ids w1 xf = [1..int N]
    \<and> stored_ids w2 xf = stored_ids w1 xf @ [int N + 1..int N + int M]
    \<and> stored_ids w2 xf = [1..int N + int M]
    \<and> distinct (stored_ids w2 xf) \<and> sorted (stored_ids w2 xf)"
proof -
  have lenN: "length old = N" using listing_length [OF old] by simp
  have lenM: "length added = M" using listing_length [OF added] by simp
  have mx1: "Max (insert 0 (finding_id ` set old)) = int N"
    using listing_Max [OF old, of 0] by simp
  have mx2: "Max (insert (int N) (finding_id ` set added)) = int N + int M"
    using listing_Max [OF added, of "int N"] by simp
  let ?st1 = "add_count flt N (set_max_id key (int N) st0)"
  let ?w1 = "\<lambda>n1. if old \<noteq> []
       then w0\<lparr>net := n1, xlsx := (xlsx w0)(xf \<mapsto>
              create_workbook_with_headers @ map finding_to_row (rev old))\<rparr>
       else w0\<lparr>net := n1\<rparr>"
  have "\<exists>n1. fetch_category (sim_remote old) flt xf key st0 w0 = Some (Inr (N, ?st1), ?w1 n1)"
    using fetch_category_sim [of 0 key st0 True old flt xf w0] wm lenN mx1
    by (cases "old = []") (auto simp: fresh_def)
  then obtain n1 where
    r1: "fetch_category (sim_remote old) flt xf key st0 w0 = Some (Inr (N, ?st1), ?w1 n1)"
    by blast
  have c1: "get_max_id key ?st1 = int N" by simp
  have ids1: "stored_ids (?w1 n1) xf = [1..int N]"
  proof (cases "old = []")
    case True
    then have "N = 0" using lenN by simp
    then show ?thesis using True nofile by (simp add: stored_ids_def)
  next
    case False
    have "create_workbook_with_headers \<noteq> []" by (simp add: create_workbook_with_headers_def)
    then have "store_ids (create_workbook_with_headers @ map finding_to_row (rev old))
        = map finding_id (rev old)"
      by (simp add: store_ids_append)
    then show ?thesis using False by (simp add: stored_ids_def listing_rows [OF old])
  qed
  let ?base = "if int N = 0 then create_workbook_with_headers
               else load_or_create_workbook (xlsx (?w1 n1) xf)"
  let ?st2 = "add_count flt M (set_max_id key (int N + int M) ?st1)"
  let ?w2 = "\<lambda>n2. if added \<noteq> []
       then (?w1 n1)\<lparr>net := n2, xlsx := (xlsx (?w1 n1))(xf \<mapsto>
              ?base @ map finding_to_row (rev added))\<rparr>
       else (?w1 n1)\<lparr>net := n2\<rparr>"
  have fr: "fresh (int N = 0) (int N) (added @ old) = added"
    using old added by (rule fresh_added)
  from fetch_category_sim [OF c1 [symmetric] refl, of "added @ old" flt xf "?w1 n1"]
  obtain n2 where
    r2: "fetch_category (sim_remote (added @ old)) flt xf key ?st1 (?w1 n1)
       = Some (Inr (M, ?st2), ?w2 n2)"
    unfolding fr lenM mx2 by blast
  have c2: "get_max_id key ?st2 = int N + int M" by simp
  have ids2: "stored_ids (?w2 n2) xf = stored_ids (?w1 n1) xf @ [int N + 1..int N + int M]"
  proof (cases "added = []")
    case True
    then have "M = 0" using lenM by simp
    then show ?thesis using True by (simp add: stored_ids_def)
  next
    case False
    have base: "?base \<noteq> [] \<and> store_ids ?base = stored_ids (?w1 n1) xf"
    proof (cases "N = 0")
      case True
      then show ?thesis
        using ids1 by (simp add: create_workbook_with_headers_def store_ids_def)
    next
      case N: False
      then have "old \<noteq> []" using lenN by auto
      then show ?thesis
        using N by (simp add: load_or_create_workbook_def stored_ids_def
            create_workbook_with_headers_def)
    qed
    then have "store_ids (?base @ map finding_to_row (rev added))
        = stored_ids (?w1 n1) xf @ map finding_id (rev added)"
      by (simp add: store_ids_append)
    moreover have "stored_ids (?w2 n2) xf = store_ids (?base @ map finding_to_row (rev added))"
      using False by (simp add: stored_ids_def)
    ultimately show ?thesis by (simp add: listing_rows [OF added])
  qed
  have ids3: "stored_ids (?w2 n2) xf = [1..int N + int M]"
    unfolding ids2 ids1 by (rule upto_two_runs)
  have ds: "distinct (stored_ids (?w2 n2) xf) \<and> sorted (stored_ids (?w2 n2) xf)"
    unfolding ids3 by simp
  from r1 r2 c1 c2 ids1 ids2 ids3 ds show ?thesis by blast
qed

theorem two_syncs_store_all_ids_once_witness:
  "get_max_id High_medium_max_id default_state = 0
   \<and> xlsx empty_world HIGH_MEDIUM_FILE = None
   \<and> map finding_id (numbered (rev [1..250])) = rev [1..250]
   \<and> map finding_id (numbered (rev [251..280])) = rev [251..280]
   \<and> (\<exists>st1 w1 st2 w2.
      fetch_category (sim_remote (numbered (rev [1..250]))) [HIGH, MEDIUM] HIGH_MEDIUM_FILE
        High_medium_max_id default_state empty_world = Some (Inr (250, st1), w1)
    \<and> fetch_category (sim_remote (numbered (rev [251..280]) @ numbered (rev [1..250])))
        [HIGH, MEDIUM] HIGH_MEDIUM_FILE High_medium_max_id st1 w1 = Some (Inr (30, st2), w2)
    \<and> get_max_id High_medium_max_id st2 = 280
    \<and> stored_ids w1 HIGH_MEDIUM_FILE = [1..250]
    \<and> stored_ids w2 HIGH_MEDIUM_FILE = [1..280])"
proof -
  have h1: "get_max_id High_medium_max_id default_state = 0"
    by (simp add: get_max_id_def default_state_def)
  have h2: "xlsx empty_world HIGH_MEDIUM_FILE = None"
    by (simp add: empty_world_def)
  have h3: "map finding_id (numbered (rev [1..250])) = rev [1..int 250]"
    by simp
  have h4: "map finding_id (numbered (rev [251..280])) = rev [int 250 + 1..int 250 + int 30]"
    by simp
  from two_syncs_store_all_ids_once [OF h1 h2 h3 h4, of "[HIGH, MEDIUM]"] h1 h2
  show ?thesis by simp blast
qed

section \<open>The initial sync\<close>

text \<open>
  Claim C6. With the watermark at the sentinel 0 the scan of a page takes every finding
  and never sets the stop flag, whatever the ids are; against the simulated remote the
  sync returns every record of the listing, from all its pages, and writes them to a
  fresh store. In particular, for 250 records with the ids 250 down to 1, delivered as
  pages of 100, 100 and 50, the sync returns 250 new records and sets the watermark
  to 250.
\<close>

theorem initial_sync_walks_every_page:
  assumes "get_max_id key st = 0"
  shows "new_findings (scan_findings True cur fs s) = new_findings s @ fs
     \<and> should_stop (scan_findings True cur fs s) = should_stop s
     \<and> (\<exists>st' w'. fetch_category (sim_remote fs) flt xf key st w = Some (Inr (length fs, st'), w')
           \<and> get_max_id key st' = Max (insert 0 (finding_id ` set fs))
           \<and> (fs \<noteq> [] \<longrightarrow> xlsx w' xf = Some (HEADERS # map finding_to_row (rev fs))))
     \<and> (map finding_id fs = rev [1..250] \<longrightarrow>
           length (delivered (sim_remote fs k flt 1)) = 100
         \<and> length (delivered (sim_remote fs k flt 2)) = 100
         \<and> length (delivered (sim_remote fs k flt 3)) = 50
         \<and> announced_pages (sim_remote fs k flt 1) = Some 3
         \<and> (\<exists>st' w'. fetch_category (sim_remote fs) flt xf key st w = Some (Inr (250, st'), w')
               \<and> get_max_id key st' = 250))"
proof -
  let ?mx = "Max (insert 0 (finding_id ` set fs))"
  let ?st1 = "add_count flt (length fs) (set_max_id key ?mx st)"
  let ?w1 = "\<lambda>n1. if fs \<noteq> []
       then w\<lparr>net := n1, xlsx := (xlsx w)(xf \<mapsto>
              create_workbook_with_headers @ map finding_to_row (rev fs))\<rparr>
       else w\<lparr>net := n1\<rparr>"
  have a: "new_findings (scan_findings True cur fs s) = new_findings s @ fs"
    by (simp add: scan_new_findings fresh_def)
  have b: "should_stop (scan_findings True cur fs s) = should_stop s"
    by (simp add: scan_should_stop fresh_def)
  have "\<exists>n1. fetch_category (sim_remote fs) flt xf key st w = Some (Inr (length fs, ?st1), ?w1 n1)"
    using fetch_category_sim [of 0 key st True fs flt xf w] assms
    by (cases "fs = []") (auto simp: fresh_def)
  then obtain n1 where
    r: "fetch_category (sim_remote fs) flt xf key st w = Some (Inr (length fs, ?st1), ?w1 n1)"
    by blast
  have c1: "get_max_id key ?st1 = ?mx" by simp
  have f: "fs \<noteq> [] \<longrightarrow> xlsx (?w1 n1) xf = Some (HEADERS # map finding_to_row (rev fs))"
    by (simp add: create_workbook_with_headers_def)
  have c: "\<exists>st' w'. fetch_category (sim_remote fs) flt xf key st w = Some (Inr (length fs, st'), w')
           \<and> get_max_id key st' = ?mx
           \<and> (fs \<noteq> [] \<longrightarrow> xlsx w' xf = Some (HEADERS # map finding_to_row (rev fs)))"
    using r c1 f by blast
  have d: "length (delivered (sim_remote fs k flt 1)) = 100
         \<and> length (delivered (sim_remote fs k flt 2)) = 100
         \<and> length (delivered (sim_remote fs k flt 3)) = 50
         \<and> announced_pages (sim_remote fs k flt 1) = Some 3
         \<and> (\<exists>st' w'. fetch_category (sim_remote fs) flt xf key st w = Some (Inr (250, st'), w')
               \<and> get_max_id key st' = 250)"
    if ids: "map finding_id fs = rev [1..250]"
  proof -
    have len: "length fs = 250" using listing_length [OF ids] by simp
    have mx: "?mx = 250" using listing_Max [OF ids, of 0] by simp
    have pages: "length (delivered (sim_remote fs k flt 1)) = 100
         \<and> length (delivered (sim_remote fs k flt 2)) = 100
         \<and> length (delivered (sim_remote fs k flt 3)) = 50
         \<and> announced_pages (sim_remote fs k flt 1) = Some 3"
      by (simp add: delivered_def announced_pages_def sim_remote_def PAGE_SIZE_def len)
    have "fetch_category (sim_remote fs) flt xf key st w = Some (Inr (250, ?st1), ?w1 n1)"
      using r len by simp
    moreover have "get_max_id key ?st1 = 250" using c1 mx by simp
    ultimately show ?thesis using pages by blast
  qed
  show ?thesis using a b c d by blast
qed

theorem initial_sync_walks_every_page_witness:
  "get_max_id High_medium_max_id default_state = 0
   \<and> map finding_id (numbered (rev [1..250])) = rev [1..250]
   \<and> length (delivered (sim_remote (numbered (rev [1..250])) 0 [HIGH, MEDIUM] 3)) = 50
   \<and> (\<exists>st' w'. fetch_category (sim_remote (numbered (rev [1..250]))) [HIGH, MEDIUM]
           HIGH_MEDIUM_FILE High_medium_max_id default_state empty_world
         = Some (Inr (250, st'), w')
       \<and> get_max_id High_medium_max_id st' = 250)"
proof -
  have h1: "get_max_id High_medium_max_id default_state = 0"
    by (simp add: get_max_id_def default_state_def)
  have h2: "map finding_id (numbered (rev [1..250])) = rev [1..250]"
    by simp
  from initial_sync_walks_every_page [OF h1, of 0 "numbered (rev [1..250])" "init_session 0"
      "[HIGH, MEDIUM]" HIGH_MEDIUM_FILE empty_world 0] h1 h2
  show ?thesis by blast
qed

end
